theory Spec2Isabelle
  imports Main "HOL-Library.Word"
begin

unbundle bit_operations_syntax

section \<open>Frame codec of the Chameleon Ultra device driver\<close>

text \<open>
  The driver class \<open>ChameleonUltraBLE\<close> frames every command as
  \<open>SOF(1) | LRC1(1) | CMD(2) | STATUS(2) | LENGTH(2) | LRC2(1) | DATA(n) | LRC3(1)\<close>.
  Bytes held in a \<open>Uint8Array\<close> are \<open>8 word\<close>; JavaScript numbers that the code
  computes with (command ids, status codes, lengths, checksums) are \<open>nat\<close>, with the
  masks and shifts of the source written out.
\<close>

type_synonym byte = "8 word"

text \<open>Storing a number into a \<open>Uint8Array\<close> element keeps its low eight bits.\<close>

definition u8 :: "nat \<Rightarrow> byte" where
  "u8 n = of_nat n"

definition SOF :: nat where
  "SOF = 0x11"

text \<open>
  \<open>lrcCalc\<close>: \<open>ret += b; ret &= 0xFF\<close> over the bytes, then
  \<open>(0x100 - ret) & 0xFF\<close>.
\<close>

definition lrcCalc :: "byte list \<Rightarrow> nat" where
  "lrcCalc array = (0x100 - fold (\<lambda>b ret. (ret + unat b) AND 0xFF) array 0) AND 0xFF"

text \<open>
  \<open>frame.set(data, offset)\<close> of a typed array, for a source that fits into the
  target (the only use in \<open>makeDataFrame\<close>, where the frame was allocated for it).
\<close>

definition set_at :: "byte list \<Rightarrow> byte list \<Rightarrow> nat \<Rightarrow> byte list" where
  "set_at frame src offset = take offset frame @ src @ drop (offset + length src) frame"

text \<open>
  \<open>makeDataFrame(cmd, data = null, status = 0)\<close>. The optional payload is an
  \<open>option\<close>; \<open>frame.slice(0, k)\<close> is \<open>take k frame\<close>.
\<close>

definition makeDataFrame :: "nat \<Rightarrow> byte list option \<Rightarrow> nat \<Rightarrow> byte list" where
  "makeDataFrame cmd data0 status =
    (let data = (case data0 of None \<Rightarrow> [] | Some d \<Rightarrow> d);
         dataLen = length data;
         frameLen = 1 + 1 + 2 + 2 + 2 + 1 + dataLen + 1;
         frame = replicate frameLen (0 :: byte);
         frame = frame[0 := u8 SOF];
         lrc1Pos = 1;
         frame = frame[2 := u8 (drop_bit 8 cmd AND 0xFF)];
         frame = frame[3 := u8 (cmd AND 0xFF)];
         frame = frame[4 := u8 (drop_bit 8 status AND 0xFF)];
         frame = frame[5 := u8 (status AND 0xFF)];
         frame = frame[6 := u8 (drop_bit 8 dataLen AND 0xFF)];
         frame = frame[7 := u8 (dataLen AND 0xFF)];
         lrc2Pos = 8;
         frame = (if dataLen > 0 then set_at frame data 9 else frame);
         lrc3Pos = 9 + dataLen;
         frame = frame[lrc1Pos := u8 (lrcCalc (take lrc1Pos frame))];
         frame = frame[lrc2Pos := u8 (lrcCalc (take lrc2Pos frame))];
         frame = frame[lrc3Pos := u8 (lrcCalc (take lrc3Pos frame))]
     in frame)"

text \<open>A decoded frame, the object \<open>{cmd, status, data}\<close> handed to a waiting caller.\<close>

record response =
  resp_cmd :: nat
  resp_status :: nat
  resp_data :: "byte list"

subsection \<open>Command channel state\<close>

text \<open>
  Each call of \<open>sendCommand\<close> creates one promise and one timer; both are named by the
  call's number. \<open>responseCallbacks\<close> maps a command id to the call whose closure
  (\<open>clearTimeout(timeoutId); resolve(response)\<close>) is registered for it. A promise that
  is absent from \<open>promises\<close> is still pending.
\<close>

datatype settlement = Resolved response | Rejected string

record device =
  buffer :: "byte list"
  responseCallbacks :: "nat \<rightharpoonup> nat"
  timers :: "nat \<rightharpoonup> nat"
  promises :: "nat \<rightharpoonup> settlement"
  next_call :: nat
  transport_tx :: "byte list list"

text \<open>Settling a promise a second time has no effect.\<close>

definition settle :: "nat \<Rightarrow> settlement \<Rightarrow> device \<Rightarrow> device" where
  "settle p v d = (if promises d p = None then d\<lparr>promises := (promises d)(p \<mapsto> v)\<rparr> else d)"

text \<open>
  The block after a valid frame in \<open>parseFrames\<close>:
  \<open>if (this.responseCallbacks[cmd]) { this.responseCallbacks[cmd](response);
  delete this.responseCallbacks[cmd]; }\<close>.
\<close>

definition dispatch :: "response \<Rightarrow> device \<Rightarrow> device" where
  "dispatch r d =
    (case responseCallbacks d (resp_cmd r) of
       None \<Rightarrow> d
     | Some p \<Rightarrow>
         (let d = d\<lparr>timers := (timers d)(p := None)\<rparr>;
              d = settle p (Resolved r) d
          in d\<lparr>responseCallbacks := (responseCallbacks d)(resp_cmd r := None)\<rparr>))"

subsection \<open>The streaming decoder\<close>

text \<open>
  \<open>parseFrames\<close> loops on the receive buffer. The function returns the frames it
  found valid, in order, and the device with its buffer and callbacks updated.
  \<open>buffer.slice(1)\<close> is \<open>drop 1\<close>, \<open>buffer.slice(9, 9 + dataLen)\<close> is
  \<open>take dataLen (drop 9 buffer)\<close>; every index below is inside the buffer when it is
  read, by the two length checks before it.
\<close>

function parseFrames :: "device \<Rightarrow> response list \<times> device" where
  "parseFrames d =
    (let b = buffer d in
     if length b > 0 then
       if length b < 9 then ([], d)
       else if unat (b ! 0) \<noteq> SOF then parseFrames (d\<lparr>buffer := drop 1 b\<rparr>)
       else if unat (b ! 1) \<noteq> lrcCalc (take 1 b) then parseFrames (d\<lparr>buffer := drop 1 b\<rparr>)
       else
         let cmd = push_bit 8 (unat (b ! 2)) OR unat (b ! 3);
             status = push_bit 8 (unat (b ! 4)) OR unat (b ! 5);
             dataLen = push_bit 8 (unat (b ! 6)) OR unat (b ! 7);
             frameLen = 9 + dataLen + 1
         in
           if length b < frameLen then ([], d)
           else if unat (b ! 8) \<noteq> lrcCalc (take 8 b) then parseFrames (d\<lparr>buffer := drop 1 b\<rparr>)
           else
             let data = take dataLen (drop 9 b) in
             if unat (b ! (9 + dataLen)) \<noteq> lrcCalc (take (9 + dataLen) b)
             then parseFrames (d\<lparr>buffer := drop 1 b\<rparr>)
             else
               let r = \<lparr>resp_cmd = cmd, resp_status = status, resp_data = data\<rparr>;
                   (rs, d') = parseFrames ((dispatch r d)\<lparr>buffer := drop frameLen b\<rparr>)
               in (r # rs, d')
     else ([], d))"
  by pat_completeness auto
termination
  by (relation "measure (\<lambda>d. length (buffer d))") auto

declare parseFrames.simps [simp del]

text \<open>
  The transport's data handler: append the chunk to \<open>this.buffer\<close>, then run
  \<open>parseFrames(this.buffer)\<close>.
\<close>

definition onData :: "byte list \<Rightarrow> device \<Rightarrow> response list \<times> device" where
  "onData chunk d = parseFrames (d\<lparr>buffer := buffer d @ chunk\<rparr>)"

text \<open>The constructor: no callbacks, an empty buffer.\<close>

definition new_device :: device where
  "new_device = \<lparr>buffer = [], responseCallbacks = Map.empty, timers = Map.empty,
     promises = Map.empty, next_call = 0, transport_tx = []\<rparr>"

subsection \<open>Vocabulary for the decoder's properties\<close>

text \<open>
  The checks of one loop iteration, read off the head of a buffer: start byte, the
  three checksums against the prefixes they cover, and enough bytes for the length the
  header announces. \<open>frame_at\<close> is the frame such a buffer starts with.
\<close>

definition announced_len :: "byte list \<Rightarrow> nat" where
  "announced_len b = push_bit 8 (unat (b ! 6)) OR unat (b ! 7)"

definition well_formed :: "byte list \<Rightarrow> bool" where
  "well_formed b \<longleftrightarrow>
     9 \<le> length b \<and> unat (b ! 0) = SOF \<and> unat (b ! 1) = lrcCalc (take 1 b) \<and>
     9 + announced_len b + 1 \<le> length b \<and>
     unat (b ! 8) = lrcCalc (take 8 b) \<and>
     unat (b ! (9 + announced_len b)) = lrcCalc (take (9 + announced_len b) b)"

definition frame_at :: "byte list \<Rightarrow> response" where
  "frame_at b =
     \<lparr>resp_cmd = push_bit 8 (unat (b ! 2)) OR unat (b ! 3),
      resp_status = push_bit 8 (unat (b ! 4)) OR unat (b ! 5),
      resp_data = take (announced_len b) (drop 9 b)\<rparr>"

text \<open>
  A candidate is fully buffered when the decoder has the bytes it needs to judge it:
  nine for the header and, once start byte and first checksum pass, the whole
  announced frame.
\<close>

definition fully_buffered :: "byte list \<Rightarrow> bool" where
  "fully_buffered b \<longleftrightarrow>
     9 \<le> length b \<and>
     (unat (b ! 0) = SOF \<and> unat (b ! 1) = lrcCalc (take 1 b)
        \<longrightarrow> 9 + announced_len b + 1 \<le> length b)"

text \<open>
  Garbage that never shows the start byte \<open>0x11\<close> directly followed by its checksum
  \<open>0xEF\<close>.
\<close>

fun no_header_start :: "byte list \<Rightarrow> bool" where
  "no_header_start [] = True"
| "no_header_start [a] = True"
| "no_header_start (a # b # xs) = (\<not> (a = 0x11 \<and> b = 0xEF) \<and> no_header_start (b # xs))"

section \<open>The RFID dump analyzer\<close>

text \<open>
  Class \<open>RFID\<close> classifies a dump by its size and decodes it. JavaScript strings that
  the analyzer builds from bytes and digits are \<open>string\<close>; a property that may be
  absent from an object is an \<open>option\<close>.
\<close>

subsection \<open>String helpers of the platform\<close>

definition startsWith :: "string \<Rightarrow> string \<Rightarrow> bool" where
  "startsWith s p = (take (length p) s = p)"

fun includes_str :: "string \<Rightarrow> string \<Rightarrow> bool" where
  "includes_str [] sub = (sub = [])"
| "includes_str (c # cs) sub = (startsWith (c # cs) sub \<or> includes_str cs sub)"

definition padStart :: "nat \<Rightarrow> char \<Rightarrow> string \<Rightarrow> string" where
  "padStart n c s = replicate (n - length s) c @ s"

fun join :: "string \<Rightarrow> string list \<Rightarrow> string" where
  "join sep [] = []"
| "join sep [x] = x"
| "join sep (x # y # ys) = x @ sep @ join sep (y # ys)"

text \<open>\<open>toUpperCase\<close> on the ASCII strings the analyzer builds.\<close>

definition upper_char :: "char \<Rightarrow> char" where
  "upper_char c =
     (if 97 \<le> (of_char c :: nat) \<and> (of_char c :: nat) \<le> 122
      then char_of ((of_char c :: nat) - 32) else c)"

definition toUpperCase :: "string \<Rightarrow> string" where
  "toUpperCase s = map upper_char s"

text \<open>\<open>Number.prototype.toString(radix)\<close> for integers, radix 10 and 16.\<close>

definition digit_char :: "nat \<Rightarrow> char" where
  "digit_char n = ''0123456789abcdef'' ! n"

function digits :: "nat \<Rightarrow> nat \<Rightarrow> string" where
  "digits radix n =
     (if radix < 2 \<or> n < radix then [digit_char n]
      else digits radix (n div radix) @ [digit_char (n mod radix)])"
  by pat_completeness auto
termination
  by (relation "measure (\<lambda>(radix, n). n)") auto

declare digits.simps [simp del]

definition toString :: "nat \<Rightarrow> int \<Rightarrow> string" where
  "toString radix i = (if i < 0 then CHR ''-'' # digits radix (nat (- i)) else digits radix (nat i))"

text \<open>\<open>b.toString(16).padStart(2, '0')\<close> of a byte, and \<open>String.fromCharCode\<close>.\<close>

definition hex2 :: "byte \<Rightarrow> string" where
  "hex2 b = padStart 2 CHR ''0'' (toString 16 (uint b))"

definition fromCharCode :: "byte list \<Rightarrow> string" where
  "fromCharCode bs = map (\<lambda>b. char_of (unat b)) bs"

subsection \<open>The report\<close>

record capability_container =
  cc_raw :: string
  cc_magic :: string
  cc_version :: string
  cc_memorySize :: nat
  cc_readWrite :: string

record sector_trailer =
  st_sector :: nat
  st_keyA :: string
  st_accessBits :: string
  st_keyB :: string

record t5577_block =
  blk_block :: nat
  blk_hex :: string
  blk_size :: nat

record ndef_record =
  messageBegin :: bool
  messageEnd :: bool
  shortRecord :: bool
  typeNameFormat :: nat
  typeNameFormatName :: string
  typeLength :: nat
  payloadLength :: nat
  ndef_type :: "string option"
  ndef_payload :: "byte list option"
  payloadHex :: "string option"
  payloadText :: "string option"

record details =
  pageSize :: "nat option"
  totalPages :: "nat option"
  uid :: "byte list option"
  uidHex :: "string option"
  capabilityContainer :: "capability_container option"
  lockBytes :: "string option"
  isLocked :: "bool option"
  blockSize :: "nat option"
  totalBlocks :: "nat option"
  sectors :: "nat option"
  manufacturer :: "string option"
  sectorTrailers :: "sector_trailer list option"
  hasNDEF :: "bool option"
  ndefOffset :: "nat option"
  ndefLength :: "nat option"
  ndef :: "ndef_record option"
  extractedText :: "string list option"
  idHex :: "string option"
  idDecimal :: "string option"
  version :: "byte option"
  customerId :: "int option"
  customerIdHex :: "string option"
  warning :: "string option"
  blocks :: "t5577_block list option"

definition empty_details :: details where
  "empty_details =
     \<lparr>pageSize = None, totalPages = None, uid = None, uidHex = None,
      capabilityContainer = None, lockBytes = None, isLocked = None, blockSize = None,
      totalBlocks = None, sectors = None, manufacturer = None, sectorTrailers = None,
      hasNDEF = None, ndefOffset = None, ndefLength = None, ndef = None,
      extractedText = None, idHex = None, idDecimal = None, version = None,
      customerId = None, customerIdHex = None, warning = None, blocks = None\<rparr>"

record result =
  fileSize :: nat
  fileSizeBits :: nat
  frequency :: "string option"
  tagType :: "string option"
  confidence :: nat
  details :: details
  result_data :: "byte list"

subsection \<open>Classification\<close>

text \<open>
  \<open>this.tagSignatures\<close>, in the order of the object literal, which is the order
  \<open>Object.entries\<close> walks it. The page, block and bit counts of the entries are not
  read by any method and are left out.
\<close>

record signature =
  sig_key :: string
  sig_size :: nat
  sig_name :: string

definition tagSignatures :: "signature list" where
  "tagSignatures =
    [\<lparr>sig_key = ''ntag210'', sig_size = 80, sig_name = ''NTAG 210''\<rparr>,
     \<lparr>sig_key = ''ntag212'', sig_size = 164, sig_name = ''NTAG 212''\<rparr>,
     \<lparr>sig_key = ''ntag213'', sig_size = 180, sig_name = ''NTAG 213''\<rparr>,
     \<lparr>sig_key = ''ntag215'', sig_size = 540, sig_name = ''NTAG 215''\<rparr>,
     \<lparr>sig_key = ''ntag216'', sig_size = 924, sig_name = ''NTAG 216''\<rparr>,
     \<lparr>sig_key = ''mifareMini'', sig_size = 320, sig_name = ''Mifare Mini''\<rparr>,
     \<lparr>sig_key = ''mifareClassic1K'', sig_size = 1024, sig_name = ''Mifare Classic 1K''\<rparr>,
     \<lparr>sig_key = ''mifareClassic2K'', sig_size = 2048, sig_name = ''Mifare Classic 2K''\<rparr>,
     \<lparr>sig_key = ''mifareClassic4K'', sig_size = 4096, sig_name = ''Mifare Classic 4K''\<rparr>,
     \<lparr>sig_key = ''mifareUltralight'', sig_size = 64, sig_name = ''Mifare Ultralight''\<rparr>,
     \<lparr>sig_key = ''mifareUltralightC'', sig_size = 192, sig_name = ''Mifare Ultralight C''\<rparr>,
     \<lparr>sig_key = ''em410x'', sig_size = 5, sig_name = ''EM410X''\<rparr>,
     \<lparr>sig_key = ''t5577'', sig_size = 264, sig_name = ''T5577''\<rparr>,
     \<lparr>sig_key = ''hidProx'', sig_size = 96, sig_name = ''HID Prox''\<rparr>]"

text \<open>
  \<open>detectTagType\<close>: the first table entry of the dump's size decides and returns;
  only without one do the size heuristics run.
\<close>

fun match_signature :: "signature list \<Rightarrow> nat \<Rightarrow> result \<Rightarrow> result option" where
  "match_signature [] size' result = None"
| "match_signature (sig # sigs) size' result =
     (if sig_size sig = size' then
        (let result = result\<lparr>tagType := Some (sig_name sig), confidence := 90\<rparr>;
             key = sig_key sig
         in Some (if startsWith key ''ntag'' \<or> startsWith key ''mifare''
                  then result\<lparr>frequency := Some ''HF''\<rparr>
                  else if startsWith key ''em'' \<or> startsWith key ''t55'' \<or> startsWith key ''hid''
                  then result\<lparr>frequency := Some ''LF''\<rparr>
                  else result))
      else match_signature sigs size' result)"

definition detectTagType :: "byte list \<Rightarrow> result \<Rightarrow> result" where
  "detectTagType data result =
    (let size' = length data in
     case match_signature tagSignatures size' result of
       Some matched \<Rightarrow> matched
     | None \<Rightarrow>
         if size' = 5 then
           result\<lparr>tagType := Some ''EM410X'', frequency := Some ''LF'', confidence := 95\<rparr>
         else if size' \<ge> 64 \<and> size' \<le> 1024 then
           result\<lparr>frequency := Some ''HF'', tagType := Some ''Unknown HF/NFC'', confidence := 50\<rparr>
         else if size' < 64 then
           result\<lparr>frequency := Some ''LF'', tagType := Some ''Unknown LF'', confidence := 50\<rparr>
         else
           result\<lparr>tagType := Some ''Unknown'', confidence := 0\<rparr>)"

subsection \<open>HF decoding\<close>

definition extractUID :: "byte list \<Rightarrow> byte list" where
  "extractUID data =
     (if length data < 8 then []
      else if data ! 0 = 0x88 then take 8 data
      else take 4 data)"

text \<open>\<open>data.slice(a, b)\<close> for \<open>a \<le> b\<close>.\<close>

definition slice_arr :: "'a list \<Rightarrow> nat \<Rightarrow> nat \<Rightarrow> 'a list" where
  "slice_arr xs a b = take (b - a) (drop a xs)"

definition analyzeNTAG :: "byte list \<Rightarrow> result \<Rightarrow> result" where
  "analyzeNTAG data result =
    (let result =
       (if length data \<ge> 16 then
          (let cc = slice_arr data 12 16 in
           result\<lparr>details := (details result)\<lparr>capabilityContainer := Some
             \<lparr>cc_raw = toUpperCase (join '' '' (map hex2 cc)),
              cc_magic = hex2 (cc ! 0),
              cc_version = toString 10 (uint (drop_bit 4 (cc ! 1))) @ ''.''
                           @ toString 10 (uint (cc ! 1 AND 0x0F)),
              cc_memorySize = unat (cc ! 2) * 8,
              cc_readWrite = (if cc ! 3 = 0x00 then ''Read/Write'' else ''Read-only'')\<rparr>\<rparr>\<rparr>)
        else result)
     in
       if length data \<ge> 12 then
         (let lockBytes' = slice_arr data 10 12 in
          result\<lparr>details := (details result)
            \<lparr>lockBytes := Some (toUpperCase (join '' '' (map hex2 lockBytes'))),
             isLocked := Some (lockBytes' ! 0 \<noteq> 0x00 \<or> lockBytes' ! 1 \<noteq> 0x00)\<rparr>\<rparr>)
       else result)"

definition getMifareManufacturer :: "byte \<Rightarrow> string" where
  "getMifareManufacturer b =
     (if b = 0x04 then ''NXP''
      else if b = 0x02 then ''STMicroelectronics''
      else if b = 0x44 then ''Nationz''
      else if b = 0x62 then ''Fudan''
      else if b = 0x63 then ''Fudan''
      else ''Unknown (0x'' @ hex2 b @ '')'')"

definition uid_hex :: "byte list \<Rightarrow> string" where
  "uid_hex u = toUpperCase (join '':'' (map hex2 u))"

definition analyzeMifareClassic :: "byte list \<Rightarrow> result \<Rightarrow> result" where
  "analyzeMifareClassic data result =
    (let blockSize' = 16;
         totalBlocks' = length data div blockSize';
         sectors' = totalBlocks' div 4;
         d = (details result)\<lparr>blockSize := Some blockSize', totalBlocks := Some totalBlocks',
                                 sectors := Some sectors'\<rparr>;
         d = (if length data \<ge> blockSize' then
                d\<lparr>uid := Some (slice_arr data 0 4), uidHex := Some (uid_hex (slice_arr data 0 4)),
                  manufacturer := Some (getMifareManufacturer (data ! 0))\<rparr>
              else d);
         accessBits = concat (map (\<lambda>sector.
            (let trailerBlock = sector * 4 + 3;
                 trailerOffset = trailerBlock * blockSize'
             in if trailerOffset + blockSize' \<le> length data then
                  (let trailer = slice_arr data trailerOffset (trailerOffset + blockSize') in
                   [\<lparr>st_sector = sector,
                     st_keyA = toUpperCase (join [] (map hex2 (slice_arr trailer 0 6))),
                     st_accessBits = toUpperCase (join [] (map hex2 (slice_arr trailer 6 10))),
                     st_keyB = toUpperCase (join [] (map hex2 (slice_arr trailer 10 16)))\<rparr>])
                else [])) [0..<sectors'])
     in result\<lparr>details := d\<lparr>sectorTrailers := Some accessBits\<rparr>\<rparr>)"

definition getTNFName :: "nat \<Rightarrow> string" where
  "getTNFName tnf =
     (if tnf = 0 then ''Empty'' else if tnf = 1 then ''Well-known''
      else if tnf = 2 then ''Media'' else if tnf = 3 then ''Absolute URI''
      else if tnf = 4 then ''External'' else if tnf = 5 then ''Unknown''
      else if tnf = 6 then ''Unchanged'' else if tnf = 7 then ''Reserved''
      else ''Unknown'')"

text \<open>
  \<open>parseNDEF\<close>. The platform's \<open>TextDecoder('utf-8').decode\<close> is the parameter
  \<open>decode\<close>; \<open>None\<close> stands for a decoder that throws, which the \<open>try\<close> swallows,
  leaving \<open>payloadText\<close> unset.
\<close>

definition parseNDEF :: "(byte list \<Rightarrow> string option) \<Rightarrow> byte list \<Rightarrow> result \<Rightarrow> result" where
  "parseNDEF decode ndefData result =
    (if length ndefData < 3 then result
     else
       let header = ndefData ! 0;
           typeLength' = unat (ndefData ! 1);
           payloadLength' = unat (ndefData ! 2);
           MB = (header AND 0x80 \<noteq> 0);
           ME = (header AND 0x40 \<noteq> 0);
           SR = (header AND 0x10 \<noteq> 0);
           TNF = unat (header AND 0x07);
           n = \<lparr>messageBegin = MB, messageEnd = ME, shortRecord = SR,
                typeNameFormat = TNF, typeNameFormatName = getTNFName TNF,
                typeLength = typeLength', payloadLength = payloadLength',
                ndef_type = None, ndef_payload = None, payloadHex = None,
                payloadText = None\<rparr>;
           n = (if typeLength' > 0 \<and> length ndefData \<ge> 3 + typeLength'
                then n\<lparr>ndef_type := Some (fromCharCode (slice_arr ndefData 3 (3 + typeLength')))\<rparr>
                else n);
           payloadOffset = 3 + typeLength';
           n = (if payloadLength' > 0 \<and> length ndefData \<ge> payloadOffset + payloadLength'
                then
                  (let payload = slice_arr ndefData payloadOffset (payloadOffset + payloadLength');
                       n = n\<lparr>ndef_payload := Some payload,
                              payloadHex := Some (toUpperCase (join '' '' (map hex2 payload)))\<rparr>
                   in case decode payload of
                        Some payloadText' \<Rightarrow> n\<lparr>payloadText := Some payloadText'\<rparr>
                      | None \<Rightarrow> n)
                else n)
       in result\<lparr>details := (details result)\<lparr>ndef := Some n\<rparr>\<rparr>)"

text \<open>
  The search loop of \<open>checkNDEF\<close>, \<open>for (i = 16; i < Math.min(data.length - 2, 100); i++)\<close>,
  which stops at the first byte \<open>0x03\<close>. For a dump shorter than two bytes the bound is
  negative in the source and \<open>0\<close> here; the loop body runs in neither.
\<close>

function find_ndef_tlv :: "byte list \<Rightarrow> nat \<Rightarrow> nat option" where
  "find_ndef_tlv data i =
     (if i < min (length data - 2) 100 then
        (if data ! i = 0x03 then Some i else find_ndef_tlv data (i + 1))
      else None)"
  by pat_completeness auto
termination
  by (relation "measure (\<lambda>(data, i). 100 - i)") auto

declare find_ndef_tlv.simps [simp del]

definition checkNDEF :: "(byte list \<Rightarrow> string option) \<Rightarrow> byte list \<Rightarrow> result \<Rightarrow> result" where
  "checkNDEF decode data result =
    (case find_ndef_tlv data 16 of
       Some ndefOffset' \<Rightarrow>
         (let ndefLength' = unat (data ! (ndefOffset' + 1));
              result = result\<lparr>details := (details result)
                \<lparr>hasNDEF := Some True, ndefOffset := Some ndefOffset',
                 ndefLength := Some ndefLength'\<rparr>\<rparr>
          in if ndefOffset' + 2 + ndefLength' \<le> length data then
               parseNDEF decode (slice_arr data (ndefOffset' + 2) (ndefOffset' + 2 + ndefLength')) result
             else result)
     | None \<Rightarrow> result\<lparr>details := (details result)\<lparr>hasNDEF := Some False\<rparr>\<rparr>)"

text \<open>
  \<open>extractText\<close>: runs of printable ASCII of length at least four. The loop state is
  the pair of the texts found and the run being read.
\<close>

definition extractText_step :: "byte \<Rightarrow> string list \<times> string \<Rightarrow> string list \<times> string" where
  "extractText_step b st =
     (case st of (texts, currentText) \<Rightarrow>
        if b \<ge> 0x20 \<and> b \<le> 0x7E then (texts, currentText @ fromCharCode [b])
        else if length currentText \<ge> 4 then (texts @ [currentText], [])
        else (texts, []))"

definition extractText :: "byte list \<Rightarrow> result \<Rightarrow> result" where
  "extractText data result =
    (case fold extractText_step data ([], []) of (texts, currentText) \<Rightarrow>
       (let texts = (if length currentText \<ge> 4 then texts @ [currentText] else texts)
        in if length texts > 0
           then result\<lparr>details := (details result)\<lparr>extractedText := Some texts\<rparr>\<rparr>
           else result))"

definition analyzeHF :: "(byte list \<Rightarrow> string option) \<Rightarrow> byte list \<Rightarrow> result \<Rightarrow> result" where
  "analyzeHF decode data result =
    (let pageSize' = 4;
         totalPages' = length data div pageSize';
         u = extractUID data;
         result = result\<lparr>details := (details result)
           \<lparr>pageSize := Some pageSize', totalPages := Some totalPages',
            uid := Some u, uidHex := Some (uid_hex u)\<rparr>\<rparr>;
         result =
           (case tagType result of
              None \<Rightarrow> result
            | Some t \<Rightarrow>
                if startsWith t ''NTAG'' then analyzeNTAG data result
                else if includes_str t ''Mifare Classic'' then analyzeMifareClassic data result
                else result);
         result = checkNDEF decode data result
     in extractText data result)"

subsection \<open>LF decoding\<close>

text \<open>
  \<open>analyzeEM410X\<close>. The bitwise operators of JavaScript work on 32-bit two's
  complement integers, so \<open>(data[1] << 24) | (data[2] << 16) | (data[3] << 8) | data[4]\<close>
  is the signed reading of the 32-bit word.
\<close>

definition analyzeEM410X :: "byte list \<Rightarrow> result \<Rightarrow> result" where
  "analyzeEM410X data result =
    (if length data \<noteq> 5 then
       result\<lparr>details := (details result)\<lparr>warning := Some ''EM410X should be 5 bytes''\<rparr>\<rparr>
     else
       let cid = sint (push_bit 24 (ucast (data ! 1)) OR push_bit 16 (ucast (data ! 2))
                       OR push_bit 8 (ucast (data ! 3)) OR ucast (data ! 4) :: 32 word)
       in result\<lparr>details := (details result)
            \<lparr>idHex := Some (toUpperCase (join [] (map hex2 data))),
             idDecimal := Some (join '','' (map (\<lambda>b. padStart 3 CHR ''0'' (toString 10 (uint b))) data)),
             version := Some (data ! 0),
             customerId := Some cid,
             customerIdHex := Some (toUpperCase (padStart 8 CHR ''0'' (toString 16 cid)))\<rparr>\<rparr>)"

definition analyzeT5577 :: "byte list \<Rightarrow> result \<Rightarrow> result" where
  "analyzeT5577 data result =
    (let blockSize' = 33;
         totalBlocks' = 8;
         bs = map (\<lambda>i.
                (let blockData = slice_arr data (i * blockSize') (min ((i + 1) * blockSize') (length data))
                 in \<lparr>blk_block = i, blk_hex = toUpperCase (join '' '' (map hex2 blockData)),
                     blk_size = length blockData\<rparr>))
              (filter (\<lambda>i. i * blockSize' < length data) [0..<totalBlocks'])
     in result\<lparr>details := (details result)
          \<lparr>blockSize := Some blockSize', totalBlocks := Some totalBlocks', blocks := Some bs\<rparr>\<rparr>)"

definition analyzeLF :: "byte list \<Rightarrow> result \<Rightarrow> result" where
  "analyzeLF data result =
    (if tagType result = Some ''EM410X'' \<or> length data = 5 then analyzeEM410X data result
     else if tagType result = Some ''T5577'' then analyzeT5577 data result
     else result)"

subsection \<open>The entry point\<close>

text \<open>
  \<open>analyze(data)\<close> takes bytes, \<open>null\<close> or a path. A path is read through
  \<open>window.ToolboxAPI.readFile\<close>, the parameter \<open>readFile\<close>: \<open>None\<close> when the API is
  missing, otherwise a function from a path to the bytes read or to \<open>None\<close> for a
  falsy answer. The call either throws (\<open>Inl\<close>) or returns an error object or a report.
\<close>

datatype analyze_input = Null | Bytes "byte list" | Path string

datatype analysis = Error_result string | Report result

text \<open>The object literal \<open>result\<close> that \<open>analyze\<close> starts from.\<close>

definition initial_result :: "byte list \<Rightarrow> result" where
  "initial_result data =
     \<lparr>fileSize = length data, fileSizeBits = length data * 8,
      frequency = None, tagType = None, confidence = 0,
      details = empty_details, result_data = data\<rparr>"

text \<open>
  A stand-in for the platform decoder on 7-bit input, where UTF-8 decoding keeps every
  byte as the character of that code.
\<close>

definition decode_ascii :: "byte list \<Rightarrow> string option" where
  "decode_ascii bs = Some (fromCharCode bs)"

text \<open>
  The NDEF test vector inside a 64-byte dump (the size of a Mifare Ultralight): TLV
  type \<open>0x03\<close> at offset 20, the given length byte, header \<open>0xD1\<close> (TNF 1),
  type length 1, payload length 3, type \<open>T\<close>, payload \<open>hi!\<close>.
\<close>

definition ndef_vector :: "byte \<Rightarrow> byte list" where
  "ndef_vector len =
     replicate 20 0 @ [0x03, len, 0xD1, 0x01, 0x03, 0x54, 0x68, 0x69, 0x21] @ replicate 35 0"

definition analyze ::
  "(string \<Rightarrow> byte list option) option \<Rightarrow> (byte list \<Rightarrow> string option)
     \<Rightarrow> analyze_input \<Rightarrow> string + analysis" where
  "analyze readFile decode input =
    (let loaded =
       (case input of
          Path p \<Rightarrow>
            (case readFile of
               Some rf \<Rightarrow> Inr (rf p)
             | None \<Rightarrow> Inl ''File reading not available. Pass Uint8Array directly.'')
        | Bytes bs \<Rightarrow> Inr (Some bs)
        | Null \<Rightarrow> Inr None)
     in case loaded of
          Inl err \<Rightarrow> Inl err
        | Inr None \<Rightarrow> Inr (Error_result ''No data provided or file is empty'')
        | Inr (Some data) \<Rightarrow>
            if length data = 0 then Inr (Error_result ''No data provided or file is empty'')
            else
              (let result = initial_result data;
                   result = detectTagType data result
               in Inr (Report
                    (if frequency result = Some ''HF'' then analyzeHF decode data result
                     else if frequency result = Some ''LF'' then analyzeLF data result
                     else result))))"

section \<open>Device sessions: command round trips and bulk transfers\<close>

subsection \<open>Sending a command\<close>

text \<open>
  \<open>sendCommand\<close> of class \<open>ChameleonUltraBLE\<close>: the promise executor arms the
  timeout, registers the callback under the command id and hands the frame to the
  transport, all before its first \<open>await\<close>. The call's number is returned as the
  handle of its promise. The length of the timeout is not modelled; its firing is the
  event \<open>timeout_fires\<close>, which acts only while the timer is armed
  (\<open>clearTimeout\<close> removes it).
\<close>

definition sendCommand :: "nat \<Rightarrow> byte list option \<Rightarrow> nat \<Rightarrow> device \<Rightarrow> nat \<times> device" where
  "sendCommand cmd data status d =
    (let frame = makeDataFrame cmd data status;
         p = next_call d;
         d = d\<lparr>next_call := p + 1\<rparr>;
         d = d\<lparr>timers := (timers d)(p \<mapsto> cmd)\<rparr>;
         d = d\<lparr>responseCallbacks := (responseCallbacks d)(cmd \<mapsto> p)\<rparr>;
         d = d\<lparr>transport_tx := transport_tx d @ [frame]\<rparr>
     in (p, d))"

definition timeout_fires :: "nat \<Rightarrow> device \<Rightarrow> device" where
  "timeout_fires p d =
    (case timers d p of
       None \<Rightarrow> d
     | Some cmd \<Rightarrow>
         (let d = d\<lparr>timers := (timers d)(p := None)\<rparr>;
              d = d\<lparr>responseCallbacks := (responseCallbacks d)(cmd := None)\<rparr>
          in settle p (Rejected ''Command response timed out'') d))"

subsection \<open>Scripts over the command channel\<close>

text \<open>
  The command handlers and scripts call \<open>await device.cmd(cmdNum, data)\<close>, which
  either yields the response frame or throws the timeout error. The remote device is a
  function from the commands issued so far, the current one last, to the outcome of the
  current one; this covers every device whose answers depend on what it was sent. A run
  is recorded as the list of its events: each command with its outcome, each error line
  written to the console (\<open>logToConsole(msg, true)\<close>), and each file written. Progress
  lines on the console are not recorded, and the glyphs that prefix some messages are
  left out of the text.
\<close>

datatype cmd_outcome = Responds response | Times_out

datatype event =
    Cmd nat "byte list" cmd_outcome
  | Log_error string
  | WriteFile string "byte list"

type_synonym remote = "(nat \<times> byte list) list \<Rightarrow> cmd_outcome"

fun issued :: "event list \<Rightarrow> (nat \<times> byte list) list" where
  "issued [] = []"
| "issued (Cmd c d out # es) = (c, d) # issued es"
| "issued (e # es) = issued es"

fun written :: "event list \<Rightarrow> (string \<times> byte list) list" where
  "written [] = []"
| "written (WriteFile p d # es) = (p, d) # written es"
| "written (e # es) = written es"

definition device_cmd :: "remote \<Rightarrow> nat \<Rightarrow> byte list \<Rightarrow> event list \<Rightarrow> cmd_outcome \<times> event list" where
  "device_cmd dev c d tr =
    (let out = dev (issued tr @ [(c, d)]) in (out, tr @ [Cmd c d out]))"

text \<open>How a block of statements is left.\<close>

datatype 'a exit = Finished 'a | Return_early | Throw string

definition CMD_SET_ACTIVE_MODE :: nat where "CMD_SET_ACTIVE_MODE = 1001"
definition CMD_SLOT_DATA_CONFIG_SAVE :: nat where "CMD_SLOT_DATA_CONFIG_SAVE = 1009"
definition CMD_HF14A_SCAN :: nat where "CMD_HF14A_SCAN = 2000"
definition CMD_HF14A_RAW :: nat where "CMD_HF14A_RAW = 2010"
definition CMD_MF1_WRITE_EMU_BLOCK_DATA :: nat where "CMD_MF1_WRITE_EMU_BLOCK_DATA = 4000"
definition CMD_MF1_READ_EMU_BLOCK_DATA :: nat where "CMD_MF1_READ_EMU_BLOCK_DATA = 4008"
definition CMD_MF0_NTAG_READ_EMU_PAGE_DATA :: nat where "CMD_MF0_NTAG_READ_EMU_PAGE_DATA = 4021"
definition CMD_MF0_NTAG_WRITE_EMU_PAGE_DATA :: nat where "CMD_MF0_NTAG_WRITE_EMU_PAGE_DATA = 4022"
definition CMD_EM410X_SET_EMU_ID :: nat where "CMD_EM410X_SET_EMU_ID = 5000"
definition CMD_EM410X_GET_EMU_ID :: nat where "CMD_EM410X_GET_EMU_ID = 5001"

subsection \<open>Saving a slot: chunked reads\<close>

text \<open>
  The two read loops of \<open>slot save\<close>, for NTAG pages and for Mifare Classic blocks,
  are the same statements up to the command id and the noun of the error line; they
  are one function of both. Each round asks for \<open>Math.min(32, total - index)\<close> units
  from \<open>index\<close> on and appends the answer's bytes to \<open>allData\<close>.
\<close>

function read_units :: "remote \<Rightarrow> nat \<Rightarrow> string \<Rightarrow> nat \<Rightarrow> nat \<Rightarrow> byte list \<Rightarrow> event list
                          \<Rightarrow> byte list exit \<times> event list" where
  "read_units dev command noun totalUnits unitIndex allData tr =
    (if unitIndex < totalUnits then
       (let toRead = min 32 (totalUnits - unitIndex);
            cmdData = [u8 unitIndex, u8 toRead];
            out = dev (issued tr @ [(command, cmdData)]);
            tr = tr @ [Cmd command cmdData out]
        in case out of
             Times_out \<Rightarrow> (Throw ''Command response timed out'', tr)
           | Responds readResult \<Rightarrow>
               if resp_status readResult \<noteq> 0x68 then
                 (Return_early,
                  tr @ [Log_error (''Error reading '' @ noun @ '' '' @ toString 10 (int unitIndex)
                          @ ''-'' @ toString 10 (int (unitIndex + toRead) - 1)
                          @ '': Status '' @ toString 10 (int (resp_status readResult)))])
               else read_units dev command noun totalUnits (unitIndex + 32)
                      (allData @ resp_data readResult) tr)
     else (Finished allData, tr))"
  by pat_completeness auto
termination
  by (relation "measure (\<lambda>(dev, command, noun, totalUnits, unitIndex, allData, tr). totalUnits - unitIndex)") auto

declare read_units.simps [simp del]

definition pageCounts :: "nat \<Rightarrow> nat" where
  "pageCounts tagTypeNum =
     (if tagTypeNum = 1100 then 45 else if tagTypeNum = 1101 then 135
      else if tagTypeNum = 1102 then 231 else if tagTypeNum = 1107 then 20
      else if tagTypeNum = 1108 then 41 else 135)"

definition blockCounts :: "nat \<Rightarrow> nat" where
  "blockCounts tagTypeNum =
     (if tagTypeNum = 1000 then 20 else if tagTypeNum = 1001 then 64
      else if tagTypeNum = 1002 then 128 else if tagTypeNum = 1003 then 256 else 64)"

datatype band = Hf | Lf

text \<open>
  \<open>slot save\<close> from \<open>let fileData\<close> to the end of its \<open>try\<close>: read by tag type,
  then write the file. The file name, built from the user's path, the tag type and the
  clock, is the parameter \<open>filePath\<close>; \<open>writeFile\<close> answers whether the file system
  call succeeded, or \<open>None\<close> when it throws.
\<close>

definition slot_save_read :: "remote \<Rightarrow> band \<Rightarrow> nat \<Rightarrow> string \<Rightarrow> event list
                                 \<Rightarrow> byte list exit \<times> event list" where
  "slot_save_read dev freq tagTypeNum tagTypeName tr =
    (case freq of
       Hf \<Rightarrow>
         if tagTypeNum \<ge> 1100 \<and> tagTypeNum \<le> 1108 then
           read_units dev CMD_MF0_NTAG_READ_EMU_PAGE_DATA ''pages'' (pageCounts tagTypeNum) 0 [] tr
         else if tagTypeNum \<ge> 1000 \<and> tagTypeNum \<le> 1003 then
           read_units dev CMD_MF1_READ_EMU_BLOCK_DATA ''blocks'' (blockCounts tagTypeNum) 0 [] tr
         else
           (Return_early,
            tr @ [Log_error (''HF tag type '' @ tagTypeName @ '' not supported for saving yet'')])
     | Lf \<Rightarrow>
         if tagTypeNum = 100 \<or> (tagTypeNum \<ge> 100 \<and> tagTypeNum \<le> 103) then
           (case device_cmd dev CMD_EM410X_GET_EMU_ID [] tr of
              (Times_out, tr) \<Rightarrow> (Throw ''Command response timed out'', tr)
            | (Responds readResult, tr) \<Rightarrow>
                if resp_status readResult \<noteq> 0x68 then
                  (Return_early,
                   tr @ [Log_error (''Error reading EM410X ID: Status ''
                           @ toString 10 (int (resp_status readResult)))])
                else (Finished (slice_arr (resp_data readResult) 0 5), tr))
         else
           (Return_early,
            tr @ [Log_error (''LF tag type '' @ tagTypeName @ '' not supported for saving yet'')]))"

definition slot_save :: "remote \<Rightarrow> band \<Rightarrow> nat \<Rightarrow> string \<Rightarrow> string
                            \<Rightarrow> (string \<Rightarrow> byte list \<Rightarrow> bool option) \<Rightarrow> event list
                            \<Rightarrow> unit exit \<times> event list" where
  "slot_save dev freq tagTypeNum tagTypeName filePath writeFile tr =
    (let (body, tr) =
       (case slot_save_read dev freq tagTypeNum tagTypeName tr of
          (Finished fileData, tr) \<Rightarrow>
            (case writeFile filePath fileData of
               None \<Rightarrow> (Throw ''writeFile failed'', tr)
             | Some saveSuccess \<Rightarrow>
                 (Finished (),
                  tr @ [WriteFile filePath fileData]
                     @ (if saveSuccess then [] else [Log_error (''Failed to save file: '' @ filePath)])))
        | (Return_early, tr) \<Rightarrow> (Return_early, tr)
        | (Throw err, tr) \<Rightarrow> (Throw err, tr))
     in case body of
          Throw err \<Rightarrow> (Finished (), tr @ [Log_error (''Error saving data: '' @ err)])
        | other \<Rightarrow> (other, tr))"

subsection \<open>Loading a slot: chunked writes\<close>

text \<open>
  The request of one write batch: a zeroed \<open>Uint8Array\<close> with the start index (and,
  for NTAG pages, the count) in front, then each unit of the file copied to its place;
  a last unit that the file fills only in part keeps its zeros.
\<close>

definition batch_data :: "bool \<Rightarrow> nat \<Rightarrow> byte list \<Rightarrow> nat \<Rightarrow> nat \<Rightarrow> byte list" where
  "batch_data withCount unitSize fileData unitIndex n =
    (let header = (if withCount then [u8 unitIndex, u8 n] else [u8 unitIndex]);
         cmdData = header @ replicate (n * unitSize) 0
     in fold (\<lambda>i cmdData.
                (let srcOffset = (unitIndex + i) * unitSize;
                     destOffset = length header + i * unitSize;
                     bytesToCopy = min unitSize (length fileData - srcOffset)
                 in set_at cmdData (slice_arr fileData srcOffset (srcOffset + bytesToCopy)) destOffset))
             [0..<n] cmdData)"

text \<open>
  The two write loops of \<open>slot loadram\<close> and \<open>slot loadflash\<close>, again one function
  of the command id, the noun, the unit size and whether the request carries the count.
\<close>

function write_units :: "remote \<Rightarrow> nat \<Rightarrow> string \<Rightarrow> nat \<Rightarrow> bool \<Rightarrow> byte list \<Rightarrow> nat \<Rightarrow> nat
                           \<Rightarrow> event list \<Rightarrow> unit exit \<times> event list" where
  "write_units dev command noun unitSize withCount fileData totalUnits unitIndex tr =
    (if unitIndex < totalUnits then
       (let thisBatch = min 32 (totalUnits - unitIndex);
            cmdData = batch_data withCount unitSize fileData unitIndex thisBatch;
            out = dev (issued tr @ [(command, cmdData)]);
            tr = tr @ [Cmd command cmdData out]
        in case out of
             Times_out \<Rightarrow> (Throw ''Command response timed out'', tr)
           | Responds writeResult \<Rightarrow>
               if resp_status writeResult \<noteq> 0x68 then
                 (Return_early,
                  tr @ [Log_error (''Error writing '' @ noun @ '' '' @ toString 10 (int unitIndex)
                          @ ''-'' @ toString 10 (int (unitIndex + thisBatch) - 1)
                          @ '': Status '' @ toString 10 (int (resp_status writeResult)))])
               else write_units dev command noun unitSize withCount fileData totalUnits
                      (unitIndex + 32) tr)
     else (Finished (), tr))"
  by pat_completeness auto
termination
  by (relation "measure (\<lambda>(dev, command, noun, unitSize, withCount, fileData, totalUnits, unitIndex, tr).
                    totalUnits - unitIndex)") auto

declare write_units.simps [simp del]

text \<open>\<open>Math.ceil(fileData.length / unitSize)\<close>.\<close>

definition ceil_div :: "nat \<Rightarrow> nat \<Rightarrow> nat" where
  "ceil_div n k = (n + k - 1) div k"

text \<open>
  Steps 2 and 3 of the load handler, inside its \<open>try\<close>: write the data by tag type,
  then save the configuration when the command was \<open>loadflash\<close>. A failed flash save
  is only reported. The \<open>catch\<close> reports a thrown error and ends the handler normally.
\<close>

definition slot_load_data :: "remote \<Rightarrow> string \<Rightarrow> string \<Rightarrow> nat \<Rightarrow> byte list \<Rightarrow> event list
                                 \<Rightarrow> unit exit \<times> event list" where
  "slot_load_data dev freq tagTypeName tagTypeValue fileData tr =
    (if freq = ''hf'' then
       if tagTypeValue \<ge> 1100 \<and> tagTypeValue \<le> 1108 then
         write_units dev CMD_MF0_NTAG_WRITE_EMU_PAGE_DATA ''pages'' 4 True fileData
           (ceil_div (length fileData) 4) 0 tr
       else if tagTypeValue \<ge> 1000 \<and> tagTypeValue \<le> 1003 then
         write_units dev CMD_MF1_WRITE_EMU_BLOCK_DATA ''blocks'' 16 False fileData
           (ceil_div (length fileData) 16) 0 tr
       else (Finished (), tr)
     else if freq = ''lf'' then
       if tagTypeValue = 100 then
         if length fileData < 5 then
           (Return_early, tr @ [Log_error ''EM410X requires 5 bytes of data''])
         else
           (case device_cmd dev CMD_EM410X_SET_EMU_ID (slice_arr fileData 0 5) tr of
              (Times_out, tr) \<Rightarrow> (Throw ''Command response timed out'', tr)
            | (Responds writeResult, tr) \<Rightarrow>
                if resp_status writeResult \<noteq> 0x68 then
                  (Return_early,
                   tr @ [Log_error (''Error writing EM410X ID: Status ''
                           @ toString 10 (int (resp_status writeResult)))])
                else (Finished (), tr))
       else
         (Return_early,
          tr @ [Log_error (''LF tag type '' @ tagTypeName @ '' not yet supported for loading'')])
     else (Finished (), tr))"

definition slot_load :: "remote \<Rightarrow> string \<Rightarrow> string \<Rightarrow> nat \<Rightarrow> byte list \<Rightarrow> bool \<Rightarrow> event list
                            \<Rightarrow> unit exit \<times> event list" where
  "slot_load dev freq tagTypeName tagTypeValue fileData saveToFlash tr =
    (let (body, tr) =
       (case slot_load_data dev freq tagTypeName tagTypeValue fileData tr of
          (Finished u, tr) \<Rightarrow>
            if saveToFlash then
              (case device_cmd dev CMD_SLOT_DATA_CONFIG_SAVE [] tr of
                 (Times_out, tr) \<Rightarrow> (Throw ''Command response timed out'', tr)
               | (Responds saveResult, tr) \<Rightarrow>
                   if resp_status saveResult \<noteq> 0x68 then
                     (Finished (),
                      tr @ [Log_error (''Warning: Failed to save to flash: Status ''
                              @ toString 10 (int (resp_status saveResult)))])
                   else (Finished (), tr))
            else (Finished (), tr)
        | (Return_early, tr) \<Rightarrow> (Return_early, tr)
        | (Throw err, tr) \<Rightarrow> (Throw err, tr))
     in case body of
          Throw err \<Rightarrow> (Finished (), tr @ [Log_error (''Error loading data: '' @ err)])
        | other \<Rightarrow> (other, tr))"

subsection \<open>The NTAG215 scanner script\<close>

text \<open>
  The scan loop: up to five polls, left at the first answer that carries data. It is
  entered with \<open>attempt = 1\<close>, so the loop test holds the first time round, and it
  holds again after \<open>attempt++\<close> exactly when \<open>attempt < maxRetries\<close> held before.
\<close>

function scan_loop :: "remote \<Rightarrow> nat \<Rightarrow> event list \<Rightarrow> response exit \<times> event list" where
  "scan_loop dev attempt tr =
    (let out = dev (issued tr @ [(CMD_HF14A_SCAN, [])]);
         tr = tr @ [Cmd CMD_HF14A_SCAN [] out]
     in case out of
          Times_out \<Rightarrow> (Throw ''Command response timed out'', tr)
        | Responds scanResponse \<Rightarrow>
            if length (resp_data scanResponse) > 0 then (Finished scanResponse, tr)
            else if attempt < 5 then scan_loop dev (attempt + 1) tr
            else (Finished scanResponse, tr))"
  by pat_completeness auto
termination
  by (relation "measure (\<lambda>(dev, attempt, tr). 5 - attempt)") auto

declare scan_loop.simps [simp del]

text \<open>
  The page loop: one raw \<open>READ\<close> (\<open>0x30\<close>) per four pages, copied into the
  pre-sized \<open>allData\<close> at \<open>page * pageSize\<close>.
\<close>

function read_tag_pages :: "remote \<Rightarrow> nat \<Rightarrow> byte list \<Rightarrow> event list \<Rightarrow> byte list exit \<times> event list" where
  "read_tag_pages dev page allData tr =
    (let totalPages' = 135; pageSize' = 4 in
     if page < totalPages' then
       (let options = (if page = 0 then 128 + 64 + 32 + 16 + 8 + 4 else 128 + 64 + 32 + 8 + 4);
            timeoutMs = 100;
            rawData = [0x30, u8 page];
            bitLen = length rawData * 8;
            readCmd = [u8 options,
                       u8 (drop_bit 8 timeoutMs AND 0xFF), u8 (timeoutMs AND 0xFF),
                       u8 (drop_bit 8 bitLen AND 0xFF), u8 (bitLen AND 0xFF)] @ rawData;
            out = dev (issued tr @ [(CMD_HF14A_RAW, readCmd)]);
            tr = tr @ [Cmd CMD_HF14A_RAW readCmd out]
        in case out of
             Times_out \<Rightarrow> (Throw ''Command response timed out'', tr)
           | Responds pageResponse \<Rightarrow>
               if resp_status pageResponse \<noteq> 0x00 then
                 (Return_early,
                  tr @ [Log_error (''Failed to read page '' @ toString 10 (int page)
                          @ '': status 0x'' @ toString 16 (int (resp_status pageResponse)))])
               else
                 (let dataReceived = slice_arr (resp_data pageResponse) 0 16;
                      copyLen = min 16 ((totalPages' - page) * pageSize')
                  in read_tag_pages dev (page + 4)
                       (set_at allData (slice_arr dataReceived 0 copyLen) (page * pageSize')) tr))
     else (Finished allData, tr))"
  by pat_completeness auto
termination
  by (relation "measure (\<lambda>(dev, page, allData, tr). 135 - page)") auto

declare read_tag_pages.simps [simp del]

text \<open>
  The body of the script's \<open>try\<close>. Reading \<open>sak\<close> past the end of the scan answer
  gives \<open>undefined\<close>, and \<open>sak.toString(16)\<close> then throws a \<open>TypeError\<close>. The clock
  gives \<open>timestamp\<close>; \<open>fs_writeFile\<close> tells whether the file system call returns
  (\<open>True\<close>) or throws.
\<close>

definition scan_body :: "remote \<Rightarrow> string \<Rightarrow> (string \<Rightarrow> byte list \<Rightarrow> bool) \<Rightarrow> event list
                            \<Rightarrow> unit exit \<times> event list" where
  "scan_body dev timestamp fs_writeFile tr =
    (case device_cmd dev CMD_SET_ACTIVE_MODE [1] tr of
       (Times_out, tr) \<Rightarrow> (Throw ''Command response timed out'', tr)
     | (Responds modeResponse, tr) \<Rightarrow>
         if resp_status modeResponse \<noteq> 0x68 then
           (Return_early,
            tr @ [Log_error (''Failed to switch to reader mode: status 0x''
                    @ toString 16 (int (resp_status modeResponse)))])
         else
           (case scan_loop dev 1 tr of
              (Throw err, tr) \<Rightarrow> (Throw err, tr)
            | (Return_early, tr) \<Rightarrow> (Return_early, tr)
            | (Finished scanResponse, tr) \<Rightarrow>
                if length (resp_data scanResponse) = 0 then
                  (Return_early, tr @ [Log_error ''No tag found after 5 attempts''])
                else
                  (let sdata = resp_data scanResponse;
                       uidLen = unat (sdata ! 0);
                       uid' = slice_arr sdata 1 (1 + uidLen)
                   in if 1 + uidLen + 2 \<ge> length sdata then (Throw ''TypeError'', tr)
                      else
                        (let uidHex' = join '':'' (map (\<lambda>b. toUpperCase (hex2 b)) uid') in
                         case read_tag_pages dev 0 (replicate (135 * 4) 0) tr of
                           (Throw err, tr) \<Rightarrow> (Throw err, tr)
                         | (Return_early, tr) \<Rightarrow> (Return_early, tr)
                         | (Finished allData, tr) \<Rightarrow>
                             (let uidClean = filter (\<lambda>c. c \<noteq> CHR '':'') uidHex';
                                  filename = ''/data/ntag215_'' @ uidClean @ ''_'' @ timestamp @ ''.bin''
                              in if fs_writeFile filename allData
                                 then (Finished (), tr @ [WriteFile filename allData])
                                 else (Throw ''writeFile failed'', tr))))))"

text \<open>
  The whole script: \<open>try\<close> the body, \<open>catch\<close> reports a thrown error, and
  \<open>finally\<close> sends \<open>CMD_SET_ACTIVE_MODE\<close> with payload \<open>0\<close> inside its own
  \<open>try\<close>. The result names how the body was left, and lists the events of the run.
\<close>

definition scan_and_save :: "remote \<Rightarrow> string \<Rightarrow> (string \<Rightarrow> byte list \<Rightarrow> bool)
                                \<Rightarrow> unit exit \<times> event list" where
  "scan_and_save dev timestamp fs_writeFile =
    (let (body, tr) = scan_body dev timestamp fs_writeFile [];
         tr = (case body of
                 Throw err \<Rightarrow> tr @ [Log_error (''Error: '' @ err)]
               | other \<Rightarrow> tr);
         (restored, tr) = device_cmd dev CMD_SET_ACTIVE_MODE [0] tr;
         tr = (case restored of
                 Times_out \<Rightarrow>
                   tr @ [Log_error (''Warning: Could not restore emulator mode: ''
                           @ ''Command response timed out'')]
               | Responds r \<Rightarrow> tr)
     in (body, tr))"

subsection \<open>Vocabulary for the session properties\<close>

text \<open>A command that was answered with a status other than \<open>0x68\<close>.\<close>

fun failed_chunk :: "event \<Rightarrow> bool" where
  "failed_chunk (Cmd c d (Responds r)) = (resp_status r \<noteq> 0x68)"
| "failed_chunk (Cmd c d Times_out) = False"
| "failed_chunk (Log_error m) = False"
| "failed_chunk (WriteFile p d) = False"

text \<open>
  The error line of a refused chunk as the four loops build it, with the verb
  (\<open>reading\<close>, \<open>writing\<close>) and the noun (\<open>pages\<close>, \<open>blocks\<close>) as
  parameters: the first unit of the chunk, a dash, its last unit
  (\<open>pageIndex + pagesToRead - 1\<close>), and the status of the answer.
\<close>

definition chunk_error_line :: "string \<Rightarrow> string \<Rightarrow> nat \<Rightarrow> nat \<Rightarrow> nat \<Rightarrow> string" where
  "chunk_error_line verb noun unitIndex count status =
     ''Error '' @ verb @ '' '' @ noun @ '' '' @ toString 10 (int unitIndex)
       @ ''-'' @ toString 10 (int (unitIndex + count) - 1)
       @ '': Status '' @ toString 10 (int status)"

text \<open>
  A device that answers every request with status \<open>0x68\<close> and four bytes for each
  unit the request's second byte asks for.
\<close>

definition obliging_device :: remote where
  "obliging_device h =
     Responds \<lparr>resp_cmd = fst (last h), resp_status = 0x68,
               resp_data = replicate (unat (snd (last h) ! 1) * 4) 0xAB\<rparr>"

text \<open>
  A device that refuses every request with status \<open>0x60\<close>, and a file system whose
  \<open>writeFile\<close> always succeeds.
\<close>

definition refusing_device :: remote where
  "refusing_device h = Responds \<lparr>resp_cmd = fst (last h), resp_status = 0x60, resp_data = []\<rparr>"

definition writeFile_ok :: "string \<Rightarrow> byte list \<Rightarrow> bool option" where
  "writeFile_ok p d = Some True"

text \<open>
  A device with a tag on it: it accepts every mode switch, answers every scan with a
  4-byte UID, ATQA \<open>44 00\<close> and SAK \<open>00\<close>, and treats every other command as
  \<open>raw\<close> says.
\<close>

definition tag_device :: "cmd_outcome \<Rightarrow> remote" where
  "tag_device raw h =
     (if fst (last h) = CMD_SET_ACTIVE_MODE then
        Responds \<lparr>resp_cmd = CMD_SET_ACTIVE_MODE, resp_status = 0x68, resp_data = []\<rparr>
      else if fst (last h) = CMD_HF14A_SCAN then
        Responds \<lparr>resp_cmd = CMD_HF14A_SCAN, resp_status = 0x00,
                  resp_data = [4, 0xDE, 0xAD, 0xBE, 0xEF, 0x44, 0x00, 0x00, 0x00]\<rparr>
      else raw)"

definition fs_ok :: "string \<Rightarrow> byte list \<Rightarrow> bool" where
  "fs_ok p d = True"

section \<open>Verified properties\<close>

subsection \<open>Bytes, checksums and the frame layout\<close>

lemma and_255: "(x::nat) AND 0xFF = x mod 256"
proof -
  have "x AND mask 8 = x mod 2 ^ 8" by (simp only: take_bit_eq_mask [symmetric] take_bit_eq_mod) 
  then show ?thesis by (simp add: mask_eq_exp_minus_1)
qed

lemma lrcCalc_lt: "lrcCalc xs < 256"
  by (simp add: lrcCalc_def and_255)

lemma unat_u8: "n < 256 \<Longrightarrow> unat (u8 n) = n"
  by (simp add: u8_def unat_of_nat)

lemma unat_u8_mod: "unat (u8 n) = n mod 256"
  by (simp add: u8_def unat_of_nat)

lemma or_bytes: 
  assumes "b < 256" shows "push_bit 8 (a::nat) OR b = a * 256 + b"
proof -
  have b: "take_bit 8 b = b" using assms by (simp add: take_bit_eq_mod)
  have "push_bit 8 a AND take_bit 8 b = 0"
    by (auto simp: bit_eq_iff bit_simps)
  then have "push_bit 8 a + b = push_bit 8 a OR b"
    using b disjunctive_add_eq_or [of "push_bit 8 a" b] by simp
  then show ?thesis by (simp add: push_bit_eq_mult)
qed

lemma be16: "n < 65536 \<Longrightarrow> push_bit 8 (unat (u8 (drop_bit 8 n AND 0xFF))) OR unat (u8 (n AND 0xFF)) = n"
  by (simp add: and_255 unat_u8_mod or_bytes drop_bit_eq_div)

lemma replicate_frame:
  "replicate (1 + 1 + 2 + 2 + 2 + 1 + n + 1) x = x # x # x # x # x # x # x # x # x # (replicate n x @ [x])"
  by (simp add: replicate_append_same numeral_eq_Suc)

lemma makeDataFrame_layout:
  "makeDataFrame cmd (Some data) status =
    (let hdr = [u8 SOF, u8 (lrcCalc [u8 SOF]),
                u8 (drop_bit 8 cmd AND 0xFF), u8 (cmd AND 0xFF),
                u8 (drop_bit 8 status AND 0xFF), u8 (status AND 0xFF),
                u8 (drop_bit 8 (length data) AND 0xFF), u8 (length data AND 0xFF)];
         hdr2 = hdr @ [u8 (lrcCalc hdr)]
     in hdr2 @ data @ [u8 (lrcCalc (hdr2 @ data))])"
  apply (simp only: makeDataFrame_def Let_def replicate_frame option.case)
  apply (simp add: set_at_def numeral_eq_Suc)
  done

lemma dispatch_buffer: "dispatch r (d\<lparr>buffer := x\<rparr>) = (dispatch r d)\<lparr>buffer := x\<rparr>"
  by (simp add: dispatch_def settle_def Let_def split: option.splits)

lemma buffer_dispatch: "buffer (dispatch r d) = buffer d"
  by (simp add: dispatch_def settle_def Let_def split: option.splits)

lemma parseFrames_Nil: "buffer d = [] \<Longrightarrow> parseFrames d = ([], d)"
  by (subst parseFrames.simps) simp

lemma take_frame:
  "take (9 + length xs) (a0 # a1 # a2 # a3 # a4 # a5 # a6 # a7 # a8 # xs @ ys) =
     a0 # a1 # a2 # a3 # a4 # a5 # a6 # a7 # a8 # xs"
  by (simp add: numeral_eq_Suc)

lemma nth_frame:
  "(a0 # a1 # a2 # a3 # a4 # a5 # a6 # a7 # a8 # xs @ y # ys) ! (9 + length xs) = y"
  by (simp add: numeral_eq_Suc)

lemma drop_frame:
  "drop (10 + length xs) (a0 # a1 # a2 # a3 # a4 # a5 # a6 # a7 # a8 # xs @ y # ys) = ys"
  by (simp add: numeral_eq_Suc)

lemma parseFrames_frame:
  assumes "cmd < 65536" "status < 65536" "length data < 65536" 
    and b: "buffer d = makeDataFrame cmd (Some data) status @ rest"
  shows "parseFrames d =
    (let r = \<lparr>resp_cmd = cmd, resp_status = status, resp_data = data\<rparr>;
         (rs, d') = parseFrames ((dispatch r d)\<lparr>buffer := rest\<rparr>)
     in (r # rs, d'))"
proof -
  have sof: "unat (u8 SOF) = SOF" by (simp add: unat_u8 SOF_def)
  show ?thesis
    apply (subst parseFrames.simps)
    apply (simp add: b makeDataFrame_layout Let_def sof unat_u8 lrcCalc_lt be16 assms(1-3) take_frame nth_frame drop_frame)
    done
qed


lemma lrc_sof: "lrcCalc [0x11] = 0xEF"
  by (simp add: lrcCalc_def and_255)

lemma unat_SOF_iff: "unat (a :: byte) = SOF \<longleftrightarrow> a = 0x11"
  by (simp add: word_unat_eq_iff SOF_def)

lemma unat_EF_iff: "unat (a :: byte) = 239 \<longleftrightarrow> a = 0xEF"
  by (simp add: word_unat_eq_iff)

text \<open>One iteration of the loop, by cases on the head of the buffer.\<close>

lemma parseFrames_short: "length (buffer d) < 9 \<Longrightarrow> parseFrames d = ([], d)"
  by (subst parseFrames.simps) (simp add: Let_def)

lemma parseFrames_bad_head:
  assumes "9 \<le> length (buffer d)"
    and "unat (buffer d ! 0) \<noteq> SOF \<or> unat (buffer d ! 1) \<noteq> lrcCalc (take 1 (buffer d))"
  shows "parseFrames d = parseFrames (d\<lparr>buffer := drop 1 (buffer d)\<rparr>)"
  using assms by (subst parseFrames.simps) (auto simp add: Let_def)

lemma parseFrames_incomplete:
  assumes "9 \<le> length (buffer d)"
    and "unat (buffer d ! 0) = SOF" and "unat (buffer d ! 1) = lrcCalc (take 1 (buffer d))"
    and "length (buffer d) < 9 + announced_len (buffer d) + 1"
  shows "parseFrames d = ([], d)"
  using assms by (subst parseFrames.simps) (simp add: Let_def announced_len_def)

lemma parseFrames_bad_tail:
  assumes "9 \<le> length (buffer d)"
    and "unat (buffer d ! 0) = SOF" and "unat (buffer d ! 1) = lrcCalc (take 1 (buffer d))"
    and "9 + announced_len (buffer d) + 1 \<le> length (buffer d)"
    and "\<not> well_formed (buffer d)"
  shows "parseFrames d = parseFrames (d\<lparr>buffer := drop 1 (buffer d)\<rparr>)"
  using assms by (subst parseFrames.simps) (auto simp add: Let_def announced_len_def well_formed_def)

lemma parseFrames_emit:
  assumes "well_formed (buffer d)"
  shows "parseFrames d =
    (case parseFrames ((dispatch (frame_at (buffer d)) d)
            \<lparr>buffer := drop (9 + announced_len (buffer d) + 1) (buffer d)\<rparr>) of
       (rs, d') \<Rightarrow> (frame_at (buffer d) # rs, d'))"
  using assms
  by (subst parseFrames.simps) (auto simp add: Let_def announced_len_def well_formed_def frame_at_def)

lemma emitted_frames_well_formed:
  "r \<in> set (fst (parseFrames d)) \<Longrightarrow>
     \<exists>k\<le>length (buffer d). well_formed (drop k (buffer d)) \<and> r = frame_at (drop k (buffer d))"
proof (induction "length (buffer d)" arbitrary: d rule: less_induct)
  case less
  let ?b = "buffer d"
  have step: "\<exists>k\<le>length ?b. well_formed (drop k ?b) \<and> r = frame_at (drop k ?b)"
    if n: "0 < n" "n \<le> length ?b" and r: "r \<in> set (fst (parseFrames d'))" and b': "buffer d' = drop n ?b" for n d'
  proof -
    have "length (buffer d') < length ?b" using n b' by simp
    from less.hyps [OF this r] obtain k where
      k: "k \<le> length (buffer d')" "well_formed (drop k (buffer d'))" "r = frame_at (drop k (buffer d'))"
      by blast
    have "k + n \<le> length ?b" using k(1) b' n by simp
    moreover have "drop k (buffer d') = drop (k + n) ?b" by (simp add: b')
    ultimately show ?thesis using k(2,3) by metis
  qed
  consider (short) "length ?b < 9"
    | (head) "9 \<le> length ?b" "unat (?b ! 0) \<noteq> SOF \<or> unat (?b ! 1) \<noteq> lrcCalc (take 1 ?b)"
    | (wait) "9 \<le> length ?b" "unat (?b ! 0) = SOF" "unat (?b ! 1) = lrcCalc (take 1 ?b)"
        "length ?b < 9 + announced_len ?b + 1"
    | (tail) "9 \<le> length ?b" "unat (?b ! 0) = SOF" "unat (?b ! 1) = lrcCalc (take 1 ?b)"
        "9 + announced_len ?b + 1 \<le> length ?b" "\<not> well_formed ?b"
    | (emit) "well_formed ?b"
    using linorder_not_less by blast
  then show ?case
  proof cases
    case short
    with less.prems show ?thesis by (simp add: parseFrames_short)
  next
    case head
    then have "parseFrames d = parseFrames (d\<lparr>buffer := drop 1 ?b\<rparr>)"
      by (rule parseFrames_bad_head)
    with less.prems have "r \<in> set (fst (parseFrames (d\<lparr>buffer := drop 1 ?b\<rparr>)))" by simp
    then show ?thesis using head(1) by (intro step [of 1 "d\<lparr>buffer := drop 1 ?b\<rparr>"]) simp_all
  next
    case wait
    then have "parseFrames d = ([], d)" by (rule parseFrames_incomplete)
    with less.prems show ?thesis by simp
  next
    case tail
    then have "parseFrames d = parseFrames (d\<lparr>buffer := drop 1 ?b\<rparr>)"
      by (rule parseFrames_bad_tail)
    with less.prems have "r \<in> set (fst (parseFrames (d\<lparr>buffer := drop 1 ?b\<rparr>)))" by simp
    then show ?thesis using tail(1) by (intro step [of 1 "d\<lparr>buffer := drop 1 ?b\<rparr>"]) simp_all
  next
    case emit
    let ?d' = "(dispatch (frame_at ?b) d)\<lparr>buffer := drop (9 + announced_len ?b + 1) ?b\<rparr>"
    from less.prems parseFrames_emit [OF emit]
    have "r = frame_at ?b \<or> r \<in> set (fst (parseFrames ?d'))"
      by (auto split: prod.splits)
    then show ?thesis
    proof
      assume "r = frame_at ?b"
      with emit show ?thesis by (intro exI [of _ 0]) simp
    next
      assume "r \<in> set (fst (parseFrames ?d'))"
      moreover have "9 + announced_len ?b + 1 \<le> length ?b" using emit by (simp add: well_formed_def)
      ultimately show ?thesis by (intro step [of "9 + announced_len ?b + 1" ?d']) simp_all
    qed
  qed
qed

lemma parseFrames_garbage:
  assumes "no_header_start g" and "9 \<le> length f" and "f ! 0 = 0x11"
  shows "parseFrames (d\<lparr>buffer := g @ f\<rparr>) = parseFrames (d\<lparr>buffer := f\<rparr>)"
  using assms(1)
proof (induction g rule: no_header_start.induct)
  case (3 a b xs)
  have "unat a \<noteq> SOF \<or> unat b \<noteq> lrcCalc [a]"
    using 3(2) by (auto simp: unat_SOF_iff lrc_sof unat_EF_iff)
  then have "parseFrames (d\<lparr>buffer := (a # b # xs) @ f\<rparr>) =
        parseFrames (d\<lparr>buffer := (a # b # xs) @ f, buffer := drop 1 ((a # b # xs) @ f)\<rparr>)"
    using assms(2) by (subst parseFrames_bad_head) simp_all
  then show ?case using 3 by simp
next
  case 1
  then show ?case by simp
next
  case (2 a)
  obtain c f' where f: "f = c # f'" using assms(2) by (cases f) auto
  have c: "c = 0x11" using assms(3) f by simp
  have "unat a \<noteq> SOF \<or> unat c \<noteq> lrcCalc [a]"
    by (auto simp: unat_SOF_iff lrc_sof unat_EF_iff c)
  then have "parseFrames (d\<lparr>buffer := [a] @ f\<rparr>) =
        parseFrames (d\<lparr>buffer := [a] @ f, buffer := drop 1 ([a] @ f)\<rparr>)"
    using assms(2) f by (subst parseFrames_bad_head) simp_all
  then show ?case by simp
qed

lemma makeDataFrame_head: "makeDataFrame cmd (Some data) status ! 0 = 0x11"
  by (simp add: makeDataFrame_layout Let_def u8_def SOF_def)

lemma length_makeDataFrame: "length (makeDataFrame cmd (Some data) status) = 10 + length data"
  by (simp add: makeDataFrame_layout Let_def)

lemma parseFrames_single:
  assumes "cmd < 65536" "status < 65536" "length data < 65536"
  shows "parseFrames (d\<lparr>buffer := makeDataFrame cmd (Some data) status\<rparr>) =
    ([\<lparr>resp_cmd = cmd, resp_status = status, resp_data = data\<rparr>],
     (dispatch \<lparr>resp_cmd = cmd, resp_status = status, resp_data = data\<rparr> d)\<lparr>buffer := []\<rparr>)"
proof -
  let ?f = "makeDataFrame cmd (Some data) status"
  let ?r = "\<lparr>resp_cmd = cmd, resp_status = status, resp_data = data\<rparr>"
  have "parseFrames (d\<lparr>buffer := ?f\<rparr>) =
          (let r = ?r; (rs, d') = parseFrames ((dispatch r (d\<lparr>buffer := ?f\<rparr>))\<lparr>buffer := []\<rparr>)
           in (r # rs, d'))"
    using assms by (intro parseFrames_frame) simp_all
  moreover have "parseFrames ((dispatch ?r (d\<lparr>buffer := ?f\<rparr>))\<lparr>buffer := []\<rparr>) =
          ([], (dispatch ?r (d\<lparr>buffer := ?f\<rparr>))\<lparr>buffer := []\<rparr>)"
    by (rule parseFrames_Nil) simp
  ultimately show ?thesis
    by (simp add: Let_def dispatch_buffer)
qed

subsection \<open>Claims about the frame codec\<close>

text \<open>
  C1 (frame round trip): for every command id and status in \<open>[0, 65535]\<close> and every
  payload of at most 4096 bytes, handing the bytes of
  \<open>makeDataFrame(commandId, payload, status)\<close> to the data handler of a device whose
  buffer is empty emits exactly one frame, with that command id, status and payload,
  and leaves the buffer empty.
\<close>

theorem frame_round_trip:
  assumes "commandId \<le> 65535" and "status \<le> 65535" and "length payload \<le> 4096"
    and "buffer d = []"
  shows "fst (onData (makeDataFrame commandId (Some payload) status) d) =
           [\<lparr>resp_cmd = commandId, resp_status = status, resp_data = payload\<rparr>]
         \<and> buffer (snd (onData (makeDataFrame commandId (Some payload) status) d)) = []"
proof -
  have "parseFrames (d\<lparr>buffer := makeDataFrame commandId (Some payload) status\<rparr>) =
    ([\<lparr>resp_cmd = commandId, resp_status = status, resp_data = payload\<rparr>],
     (dispatch \<lparr>resp_cmd = commandId, resp_status = status, resp_data = payload\<rparr> d)\<lparr>buffer := []\<rparr>)"
    using assms(1-3) by (intro parseFrames_single) simp_all
  then show ?thesis by (simp add: onData_def assms(4))
qed

theorem frame_round_trip_witness:
  "(1025::nat) \<le> 65535 \<and> (104::nat) \<le> 65535 \<and> length [1, 2, 3 :: byte] \<le> 4096
   \<and> buffer new_device = []
   \<and> fst (onData (makeDataFrame 1025 (Some [1, 2, 3]) 104) new_device) =
           [\<lparr>resp_cmd = 1025, resp_status = 104, resp_data = [1, 2, 3]\<rparr>]
   \<and> buffer (snd (onData (makeDataFrame 1025 (Some [1, 2, 3]) 104) new_device)) = []"
  using frame_round_trip [of 1025 104 "[1, 2, 3]" new_device]
  by (simp add: new_device_def)

text \<open>
  C2 (resynchronisation), as amended: for every valid encoded frame and every garbage
  prefix in which no start byte \<open>0x11\<close> is directly followed by \<open>0xEF\<close>, the decoder run
  on garbage followed by the frame emits exactly that one frame and ends with an empty
  buffer: it has discarded the garbage bytes and none of the frame's, and it ends in
  the state that the frame alone would have left.
\<close>

theorem resync_after_garbage:
  assumes "commandId \<le> 65535" and "status \<le> 65535" and "length payload \<le> 4096"
    and "no_header_start garbage" and "buffer d = []"
  shows "fst (onData (garbage @ makeDataFrame commandId (Some payload) status) d) =
           [\<lparr>resp_cmd = commandId, resp_status = status, resp_data = payload\<rparr>]
         \<and> buffer (snd (onData (garbage @ makeDataFrame commandId (Some payload) status) d)) = []
         \<and> onData (garbage @ makeDataFrame commandId (Some payload) status) d
             = onData (makeDataFrame commandId (Some payload) status) d"
proof -
  let ?f = "makeDataFrame commandId (Some payload) status"
  have same: "parseFrames (d\<lparr>buffer := garbage @ ?f\<rparr>) = parseFrames (d\<lparr>buffer := ?f\<rparr>)"
    using assms(4) by (rule parseFrames_garbage) (simp_all add: length_makeDataFrame makeDataFrame_head)
  moreover have "parseFrames (d\<lparr>buffer := ?f\<rparr>) =
    ([\<lparr>resp_cmd = commandId, resp_status = status, resp_data = payload\<rparr>],
     (dispatch \<lparr>resp_cmd = commandId, resp_status = status, resp_data = payload\<rparr> d)\<lparr>buffer := []\<rparr>)"
    using assms(1-3) by (intro parseFrames_single) simp_all
  ultimately show ?thesis by (simp add: onData_def assms(5))
qed

theorem resync_after_garbage_witness:
  "(1025::nat) \<le> 65535 \<and> (104::nat) \<le> 65535 \<and> length [1, 2, 3 :: byte] \<le> 4096
   \<and> no_header_start [0x00, 0x11, 0x11, 0xFF] \<and> buffer new_device = []
   \<and> fst (onData ([0x00, 0x11, 0x11, 0xFF] @ makeDataFrame 1025 (Some [1, 2, 3]) 104) new_device) =
           [\<lparr>resp_cmd = 1025, resp_status = 104, resp_data = [1, 2, 3]\<rparr>]
   \<and> buffer (snd (onData ([0x00, 0x11, 0x11, 0xFF] @ makeDataFrame 1025 (Some [1, 2, 3]) 104) new_device)) = []"
proof -
  have b: "buffer new_device = []" by (simp add: new_device_def)
  have g: "no_header_start [0x00, 0x11, 0x11, 0xFF]" by simp
  note r = resync_after_garbage [of 1025 104 "[1, 2, 3]" "[0x00, 0x11, 0x11, 0xFF]" new_device,
             OF _ _ _ g b]
  from r [THEN conjunct1] r [THEN conjunct2, THEN conjunct1] b g
  show ?thesis by simp
qed

text \<open>
  Without the restriction the statement fails. Eight garbage bytes that look like a
  header announcing 65535 payload bytes make the loop stop at its length check and wait:
  no frame is emitted and no byte is discarded, although a valid frame follows.
\<close>

theorem resync_counterexample:
  "fst (onData ([0x11, 0xEF, 0, 0, 0, 0, 0xFF, 0xFF] @ makeDataFrame 1025 (Some []) 0) new_device) = []
   \<and> buffer (snd (onData ([0x11, 0xEF, 0, 0, 0, 0, 0xFF, 0xFF] @ makeDataFrame 1025 (Some []) 0) new_device))
       = [0x11, 0xEF, 0, 0, 0, 0, 0xFF, 0xFF] @ makeDataFrame 1025 (Some []) 0"
proof -
  let ?b = "[0x11, 0xEF, 0, 0, 0, 0, 0xFF, 0xFF] @ makeDataFrame 1025 (Some []) 0"
  let ?d = "new_device\<lparr>buffer := ?b\<rparr>"
  have "parseFrames ?d = ([], ?d)"
    by (rule parseFrames_incomplete)
       (simp_all add: length_makeDataFrame SOF_def lrc_sof announced_len_def or_bytes)
  then show ?thesis by (simp add: onData_def new_device_def)
qed

text \<open>
  C3 (well-formedness of emitted frames), as amended: every frame that \<open>parseFrames\<close>
  emits was read off a suffix of the input buffer that starts with \<open>0x11\<close> and whose
  three checksum bytes validate against the prefixes they cover; and a fully buffered
  candidate that fails one of these checks is not emitted: the loop continues with the
  buffer shortened by exactly its first byte.
\<close>

theorem decoder_well_formedness:
  "(\<forall>r \<in> set (fst (parseFrames d)).
      \<exists>k\<le>length (buffer d). well_formed (drop k (buffer d)) \<and> r = frame_at (drop k (buffer d)))
   \<and> (fully_buffered (buffer d) \<and> \<not> well_formed (buffer d)
        \<longrightarrow> parseFrames d = parseFrames (d\<lparr>buffer := drop 1 (buffer d)\<rparr>))"
proof (intro conjI ballI impI)
  fix r assume "r \<in> set (fst (parseFrames d))"
  then show "\<exists>k\<le>length (buffer d). well_formed (drop k (buffer d)) \<and> r = frame_at (drop k (buffer d))"
    by (rule emitted_frames_well_formed)
next
  assume a: "fully_buffered (buffer d) \<and> \<not> well_formed (buffer d)"
  show "parseFrames d = parseFrames (d\<lparr>buffer := drop 1 (buffer d)\<rparr>)"
  proof (cases "unat (buffer d ! 0) = SOF \<and> unat (buffer d ! 1) = lrcCalc (take 1 (buffer d))")
    case True
    with a show ?thesis by (intro parseFrames_bad_tail) (simp_all add: fully_buffered_def)
  next
    case False
    with a show ?thesis by (intro parseFrames_bad_head) (auto simp add: fully_buffered_def)
  qed
qed

theorem decoder_well_formedness_witness:
  "\<lparr>resp_cmd = 1025, resp_status = 104, resp_data = [1, 2, 3]\<rparr>
      \<in> set (fst (parseFrames (new_device\<lparr>buffer := [0x00] @ makeDataFrame 1025 (Some [1, 2, 3]) 104\<rparr>)))
   \<and> (\<exists>k\<le>length ([0x00] @ makeDataFrame 1025 (Some [1, 2, 3]) 104).
         well_formed (drop k ([0x00] @ makeDataFrame 1025 (Some [1, 2, 3]) 104))
         \<and> \<lparr>resp_cmd = 1025, resp_status = 104, resp_data = [1, 2, 3]\<rparr>
             = frame_at (drop k ([0x00] @ makeDataFrame 1025 (Some [1, 2, 3]) 104)))
   \<and> fully_buffered ([0x00] @ makeDataFrame 1025 (Some [1, 2, 3]) 104)
   \<and> \<not> well_formed ([0x00] @ makeDataFrame 1025 (Some [1, 2, 3]) 104)
   \<and> parseFrames (new_device\<lparr>buffer := [0x00] @ makeDataFrame 1025 (Some [1, 2, 3]) 104\<rparr>)
       = parseFrames (new_device\<lparr>buffer := makeDataFrame 1025 (Some [1, 2, 3]) 104\<rparr>)"
proof -
  let ?f = "makeDataFrame 1025 (Some [1, 2, 3]) 104"
  let ?d = "new_device\<lparr>buffer := [0x00] @ ?f\<rparr>"
  let ?r = "\<lparr>resp_cmd = 1025, resp_status = 104, resp_data = [1, 2, 3]\<rparr>"
  have "parseFrames ?d = parseFrames (new_device\<lparr>buffer := ?f\<rparr>)"
    by (rule parseFrames_garbage) (simp_all add: length_makeDataFrame makeDataFrame_head)
  also have "\<dots> = ([?r], (dispatch ?r new_device)\<lparr>buffer := []\<rparr>)"
    by (rule parseFrames_single) simp_all
  finally have mem: "?r \<in> set (fst (parseFrames ?d))" by simp
  have fb: "fully_buffered ([0x00] @ ?f)"
    by (simp add: fully_buffered_def length_makeDataFrame SOF_def)
  have nwf: "\<not> well_formed ([0x00] @ ?f)"
    by (simp add: well_formed_def SOF_def)
  show ?thesis
    using decoder_well_formedness [of ?d] mem fb nwf by simp
qed

text \<open>
  For a candidate that is not fully buffered the second half fails: these nine bytes
  pass the start byte and the first checksum, fail the second checksum, and the loop
  stops without dropping a byte, because the announced length exceeds the buffer.
\<close>

theorem decoder_stall_counterexample:
  "unat ([0x11, 0xEF, 0, 0, 0, 0, 0xFF, 0xFF, 0x00 :: byte] ! 8)
      \<noteq> lrcCalc (take 8 [0x11, 0xEF, 0, 0, 0, 0, 0xFF, 0xFF, 0x00])
   \<and> parseFrames (new_device\<lparr>buffer := [0x11, 0xEF, 0, 0, 0, 0, 0xFF, 0xFF, 0x00]\<rparr>)
      = ([], new_device\<lparr>buffer := [0x11, 0xEF, 0, 0, 0, 0, 0xFF, 0xFF, 0x00]\<rparr>)"
proof -
  have "parseFrames (new_device\<lparr>buffer := [0x11, 0xEF, 0, 0, 0, 0, 0xFF, 0xFF, 0x00]\<rparr>)
      = ([], new_device\<lparr>buffer := [0x11, 0xEF, 0, 0, 0, 0, 0xFF, 0xFF, 0x00]\<rparr>)"
    by (rule parseFrames_incomplete)
       (simp_all add: SOF_def lrc_sof announced_len_def or_bytes)
  moreover have "unat ([0x11, 0xEF, 0, 0, 0, 0, 0xFF, 0xFF, 0x00 :: byte] ! 8)
      \<noteq> lrcCalc (take 8 [0x11, 0xEF, 0, 0, 0, 0, 0xFF, 0xFF, 0x00])"
    by (simp add: lrcCalc_def and_255)
  ultimately show ?thesis by simp
qed


subsection \<open>Facts about the analyzer\<close>

lemma detect_len5:
  "length data = 5 \<Longrightarrow>
     detectTagType data result = result\<lparr>tagType := Some ''EM410X'', confidence := 90, frequency := Some ''LF''\<rparr>"
  by (simp add: detectTagType_def tagSignatures_def startsWith_def Let_def)

lemma digits_small: "n < radix \<Longrightarrow> digits radix n = [digit_char n]"
  by (subst digits.simps) simp

lemma digits_step: "2 \<le> radix \<Longrightarrow> radix \<le> n \<Longrightarrow> digits radix n = digits radix (n div radix) @ [digit_char (n mod radix)]"
  by (subst digits.simps) simp

lemma em410x_fields:
  assumes "length data = 5"
  shows "version (details (analyzeEM410X data result)) = Some (data ! 0)"
    and "idHex (details (analyzeEM410X data result)) = Some (toUpperCase (join [] (map hex2 data)))"
    and "idDecimal (details (analyzeEM410X data result)) =
           Some (join '','' (map (\<lambda>b. padStart 3 CHR ''0'' (toString 10 (uint b))) data))"
  using assms by (simp_all add: analyzeEM410X_def Let_def)

lemma slice_nth: "b \<le> length xs \<Longrightarrow> a \<le> b \<Longrightarrow> slice_arr xs a b = map (\<lambda>i. xs ! (a + i)) [0..<b - a]"
  by (simp add: slice_arr_def list_eq_iff_nth_eq)

lemma hf_length:
  "frequency (detectTagType data (initial_result data)) = Some ''HF'' \<Longrightarrow> 64 \<le> length data"
  by (simp add: detectTagType_def tagSignatures_def startsWith_def Let_def initial_result_def
           split: if_splits)

lemma find_ndef_tlv_20:
  assumes "64 \<le> length data"
    and "data ! 16 \<noteq> 0x03" "data ! 17 \<noteq> 0x03" "data ! 18 \<noteq> 0x03" "data ! 19 \<noteq> 0x03"
    and "data ! 20 = 0x03"
  shows "find_ndef_tlv data 16 = Some 20"
proof -
  have "find_ndef_tlv data 20 = Some 20"
    using assms(1,6) by (subst find_ndef_tlv.simps) simp
  then have "find_ndef_tlv data 19 = Some 20"
    using assms(1,5) by (subst find_ndef_tlv.simps) simp
  then have "find_ndef_tlv data 18 = Some 20"
    using assms(1,4) by (subst find_ndef_tlv.simps) simp
  then have "find_ndef_tlv data 17 = Some 20"
    using assms(1,3) by (subst find_ndef_tlv.simps) simp
  then show ?thesis
    using assms(1,2) by (subst find_ndef_tlv.simps) simp
qed

lemma char_T: "fromCharCode [0x54] = ''T''"
  by (simp add: fromCharCode_def char_of_def bit_0)

lemma parseNDEF_full:
  assumes "h AND 0x07 = 0x01" and "decode [0x68, 0x69, 0x21] = Some ''hi!''"
  shows "\<exists>n. ndef (details (parseNDEF decode [h, 1, 3, 0x54, 0x68, 0x69, 0x21] r)) = Some n
           \<and> typeNameFormat n = 1 \<and> ndef_type n = Some ''T'' \<and> payloadText n = Some ''hi!''"
  using assms by (simp add: parseNDEF_def Let_def slice_arr_def char_T)

lemma parseNDEF_cut:
  assumes "h AND 0x07 = 0x01"
  shows "\<exists>n. ndef (details (parseNDEF decode [h, 1, 3, 0x54, 0x68] r)) = Some n
           \<and> typeNameFormat n = 1 \<and> ndef_type n = Some ''T''
           \<and> ndef_payload n = None \<and> payloadText n = None"
  using assms by (simp add: parseNDEF_def Let_def slice_arr_def char_T)

lemma extractText_ndef: "ndef (details (extractText data r)) = ndef (details r)"
  by (simp add: extractText_def Let_def split: prod.splits)

lemma upt_0_7: "[0..<7] = [0, 1, 2, 3, 4, 5, 6]"
  by code_simp

lemma upt_0_5: "[0..<5] = [0, 1, 2, 3, 4]"
  by code_simp

lemma checkNDEF_vector:
  assumes len: "64 \<le> length data"
    and pre: "data ! 16 \<noteq> 0x03" "data ! 17 \<noteq> 0x03" "data ! 18 \<noteq> 0x03" "data ! 19 \<noteq> 0x03"
    and tlv: "data ! 20 = 0x03"
    and hdr: "data ! 22 AND 0x07 = 0x01" "data ! 23 = 1" "data ! 24 = 3" "data ! 25 = 0x54"
    and pl: "data ! 26 = 0x68" "data ! 27 = 0x69" "data ! 28 = 0x21"
    and dec: "decode [0x68, 0x69, 0x21] = Some ''hi!''"
    and l: "data ! 21 = 0x07 \<or> data ! 21 = 0x05"
  shows "\<exists>n. ndef (details (checkNDEF decode data r)) = Some n
           \<and> typeNameFormat n = 1 \<and> ndef_type n = Some ''T''
           \<and> payloadText n = (if data ! 21 = 0x07 then Some ''hi!'' else None)"
proof -
  have f: "find_ndef_tlv data 16 = Some 20"
    using len pre tlv by (rule find_ndef_tlv_20)
  from l show ?thesis
  proof
    assume l7: "data ! 21 = 0x07"
    have s: "slice_arr data 22 29 = [data ! 22, 1, 3, 0x54, 0x68, 0x69, 0x21]"
      using len hdr pl by (simp add: slice_nth upt_0_7 upt_0_5)
    show ?thesis
      using parseNDEF_full [where h = "data ! 22" and decode = decode, OF hdr(1) dec] len
      by (simp add: checkNDEF_def f l7 Let_def s)
  next
    assume l5: "data ! 21 = 0x05"
    have s: "slice_arr data 22 27 = [data ! 22, 1, 3, 0x54, 0x68]"
      using len hdr pl by (simp add: slice_nth upt_0_7 upt_0_5)
    show ?thesis
      using parseNDEF_cut [where h = "data ! 22" and decode = decode, OF hdr(1)] len
      by (simp add: checkNDEF_def f l5 Let_def s) blast
  qed
qed

lemma analyzeHF_ndef:
  "\<exists>r1. ndef (details (analyzeHF decode data r0)) = ndef (details (checkNDEF decode data r1))"
  by (simp add: analyzeHF_def Let_def extractText_ndef) blast

lemma ndef_vector_bytes:
  "length (ndef_vector len) = 64"
  "ndef_vector len ! 16 = 0" "ndef_vector len ! 17 = 0" "ndef_vector len ! 18 = 0"
  "ndef_vector len ! 19 = 0" "ndef_vector len ! 20 = 0x03" "ndef_vector len ! 21 = len"
  "ndef_vector len ! 22 = 0xD1" "ndef_vector len ! 23 = 1" "ndef_vector len ! 24 = 3"
  "ndef_vector len ! 25 = 0x54" "ndef_vector len ! 26 = 0x68" "ndef_vector len ! 27 = 0x69"
  "ndef_vector len ! 28 = 0x21"
  by (simp_all add: ndef_vector_def nth_append)

lemma ndef_vector_hf:
  "frequency (detectTagType (ndef_vector len) (initial_result (ndef_vector len))) = Some ''HF''"
  by (simp add: detectTagType_def tagSignatures_def startsWith_def Let_def ndef_vector_bytes(1))

lemma decode_ascii_hi: "decode_ascii [0x68, 0x69, 0x21] = Some ''hi!''"
  by (simp add: decode_ascii_def fromCharCode_def char_of_def bit_0)

subsection \<open>Claims about the analyzer\<close>

text \<open>
  C4 (classifier on small buffers), as amended: every 5-byte buffer is classified as
  tag type \<open>EM410X\<close>, frequency \<open>LF\<close>, with confidence 90, through the size table's
  entry \<open>em410x\<close>; and for \<open>null\<close> and for a 0-byte buffer \<open>analyze\<close> returns the
  error object and does not throw.
\<close>

theorem classify_small_buffers:
  "(length data = 5 \<longrightarrow>
      tagType (detectTagType data result) = Some ''EM410X''
      \<and> frequency (detectTagType data result) = Some ''LF''
      \<and> confidence (detectTagType data result) = 90)
   \<and> analyze readFile decode Null = Inr (Error_result ''No data provided or file is empty'')
   \<and> analyze readFile decode (Bytes []) = Inr (Error_result ''No data provided or file is empty'')"
  by (simp add: detect_len5 analyze_def)

theorem classify_small_buffers_witness:
  "length [1, 2, 3, 4, 5 :: byte] = 5
   \<and> tagType (detectTagType [1, 2, 3, 4, 5] (initial_result [1, 2, 3, 4, 5])) = Some ''EM410X''
   \<and> frequency (detectTagType [1, 2, 3, 4, 5] (initial_result [1, 2, 3, 4, 5])) = Some ''LF''
   \<and> confidence (detectTagType [1, 2, 3, 4, 5] (initial_result [1, 2, 3, 4, 5])) = 90"
  using classify_small_buffers [of "[1, 2, 3, 4, 5]" "initial_result [1, 2, 3, 4, 5]"]
  by simp

text \<open>
  The confidence of a 5-byte buffer is not 95: the table match returns before the
  heuristic branch for size 5 is reached.
\<close>

theorem classify_confidence_counterexample:
  "confidence (detectTagType [1, 2, 3, 4, 5] (initial_result [1, 2, 3, 4, 5])) \<noteq> 95"
  by (simp add: detect_len5)

text \<open>
  C5 (NDEF vector), as amended: take any buffer classified as HF whose bytes 16 to 19
  are not \<open>0x03\<close> and that holds, from offset 20, the TLV type byte \<open>0x03\<close>, a length
  byte, a record header with TNF 1, type length 1, payload length 3, the type byte
  \<open>T\<close> and the payload \<open>hi!\<close>, and a platform decoder that reads these three bytes
  as \<open>hi!\<close>. With the length byte \<open>0x07\<close>, the length of the record, \<open>analyze\<close>
  reports an NDEF record with typeNameFormat 1, type \<open>T\<close> and payloadText \<open>hi!\<close>.
  With the length byte \<open>0x05\<close> it reports typeNameFormat 1 and type \<open>T\<close> and no
  payloadText, the TLV value ending after the first payload byte.
\<close>

theorem ndef_end_to_end:
  assumes hf: "frequency (detectTagType data (initial_result data)) = Some ''HF''"
    and pre: "data ! 16 \<noteq> 0x03" "data ! 17 \<noteq> 0x03" "data ! 18 \<noteq> 0x03" "data ! 19 \<noteq> 0x03"
    and tlv: "data ! 20 = 0x03"
    and l: "data ! 21 = 0x07 \<or> data ! 21 = 0x05"
    and hdr: "data ! 22 AND 0x07 = 0x01" "data ! 23 = 1" "data ! 24 = 3" "data ! 25 = 0x54"
    and pl: "data ! 26 = 0x68" "data ! 27 = 0x69" "data ! 28 = 0x21"
    and dec: "decode [0x68, 0x69, 0x21] = Some ''hi!''"
  shows "\<exists>r n. analyze readFile decode (Bytes data) = Inr (Report r)
           \<and> ndef (details r) = Some n
           \<and> typeNameFormat n = 1 \<and> ndef_type n = Some ''T''
           \<and> payloadText n = (if data ! 21 = 0x07 then Some ''hi!'' else None)"
proof -
  have len: "64 \<le> length data" using hf by (rule hf_length)
  let ?r0 = "detectTagType data (initial_result data)"
  have a: "analyze readFile decode (Bytes data) = Inr (Report (analyzeHF decode data ?r0))"
  proof -
    have "data \<noteq> []" using len by auto
    then show ?thesis using hf by (simp add: analyze_def Let_def)
  qed
  obtain r1 where r1: "ndef (details (analyzeHF decode data ?r0)) = ndef (details (checkNDEF decode data r1))"
    using analyzeHF_ndef by blast
  from checkNDEF_vector [where data = data and decode = decode and r = r1, OF len pre tlv hdr pl dec l] r1 a
  show ?thesis by auto
qed

theorem ndef_end_to_end_witness:
  "frequency (detectTagType (ndef_vector 0x07) (initial_result (ndef_vector 0x07))) = Some ''HF''
   \<and> ndef_vector 0x07 ! 16 \<noteq> 0x03 \<and> ndef_vector 0x07 ! 17 \<noteq> 0x03
   \<and> ndef_vector 0x07 ! 18 \<noteq> 0x03 \<and> ndef_vector 0x07 ! 19 \<noteq> 0x03
   \<and> ndef_vector 0x07 ! 20 = 0x03 \<and> ndef_vector 0x07 ! 21 = 0x07
   \<and> ndef_vector 0x07 ! 22 AND 0x07 = 0x01 \<and> ndef_vector 0x07 ! 23 = 1
   \<and> ndef_vector 0x07 ! 24 = 3 \<and> ndef_vector 0x07 ! 25 = 0x54
   \<and> ndef_vector 0x07 ! 26 = 0x68 \<and> ndef_vector 0x07 ! 27 = 0x69
   \<and> ndef_vector 0x07 ! 28 = 0x21
   \<and> decode_ascii [0x68, 0x69, 0x21] = Some ''hi!''
   \<and> (\<exists>r n. analyze None decode_ascii (Bytes (ndef_vector 0x07)) = Inr (Report r)
           \<and> ndef (details r) = Some n
           \<and> typeNameFormat n = 1 \<and> ndef_type n = Some ''T''
           \<and> payloadText n = Some ''hi!'')"
  using ndef_end_to_end [where data = "ndef_vector 0x07" and decode = decode_ascii
                           and readFile = None]
  by (simp add: ndef_vector_bytes ndef_vector_hf decode_ascii_hi)

text \<open>
  With the length byte \<open>0x05\<close> of the specification's vector, the 64-byte dump is classified HF and
  its NDEF record has no payloadText.
\<close>

theorem ndef_length_counterexample:
  "frequency (detectTagType (ndef_vector 0x05) (initial_result (ndef_vector 0x05))) = Some ''HF''
   \<and> map_option payloadText
         (ndef (details (analyzeHF decode_ascii (ndef_vector 0x05)
                  (detectTagType (ndef_vector 0x05) (initial_result (ndef_vector 0x05))))))
       = Some None"
proof -
  obtain r1 where r1:
    "ndef (details (analyzeHF decode_ascii (ndef_vector 0x05)
                  (detectTagType (ndef_vector 0x05) (initial_result (ndef_vector 0x05)))))
     = ndef (details (checkNDEF decode_ascii (ndef_vector 0x05) r1))"
    using analyzeHF_ndef by blast
  have "\<exists>n. ndef (details (checkNDEF decode_ascii (ndef_vector 0x05) r1)) = Some n
           \<and> typeNameFormat n = 1 \<and> ndef_type n = Some ''T''
           \<and> payloadText n = (if ndef_vector 0x05 ! 21 = 0x07 then Some ''hi!'' else None)"
    by (rule checkNDEF_vector) (simp_all add: ndef_vector_bytes decode_ascii_hi)
  then show ?thesis
    by (auto simp add: r1 ndef_vector_hf ndef_vector_bytes)
qed

text \<open>
  C10 (EM410x decoding): the specification asks for \<open>customerId\<close> to be the unsigned
  big-endian value of bytes 1 to 4. The analyzer computes it with 32-bit signed
  operators: for the bytes \<open>01 80 00 00 00\<close> it reports \<open>-2147483648\<close>, with the hex
  form \<open>-80000000\<close>, where the specification says \<open>2147483648\<close>.
\<close>

theorem em410x_signed_customer_id:
  "customerId (details (analyzeEM410X [0x01, 0x80, 0x00, 0x00, 0x00] (initial_result [0x01, 0x80, 0x00, 0x00, 0x00])))
     = Some (- 2147483648)
   \<and> customerIdHex (details (analyzeEM410X [0x01, 0x80, 0x00, 0x00, 0x00] (initial_result [0x01, 0x80, 0x00, 0x00, 0x00])))
     = Some ''-80000000''"
  apply (simp add: analyzeEM410X_def Let_def toString_def padStart_def toUpperCase_def)
  apply (simp add: digits_step digits_small digit_char_def upper_char_def)
  done


subsection \<open>Facts about the command channel and the scripts\<close>

lemma onData_frame:
  assumes "cmd < 65536" "status < 65536" "length data < 65536" "buffer d = []"
  shows "onData (makeDataFrame cmd (Some data) status) d =
    ([\<lparr>resp_cmd = cmd, resp_status = status, resp_data = data\<rparr>],
     (dispatch \<lparr>resp_cmd = cmd, resp_status = status, resp_data = data\<rparr> d)\<lparr>buffer := []\<rparr>)"
  using parseFrames_single [OF assms(1-3), of d] assms(4) by (simp add: onData_def)

lemma dispatch_unmatched: "responseCallbacks d (resp_cmd r) = None \<Longrightarrow> dispatch r d = d"
  by (simp add: dispatch_def)

lemma issued_append: "issued (a @ b) = issued a @ issued b"
  by (induction a rule: issued.induct) simp_all

lemma scan_loop_issued:
  "x \<in> set (issued (snd (scan_loop dev attempt tr))) \<Longrightarrow>
     x \<in> set (issued tr) \<or> fst x = CMD_HF14A_SCAN"
proof (induction dev attempt tr rule: scan_loop.induct)
  case (1 dev attempt tr)
  let ?tr = "tr @ [Cmd CMD_HF14A_SCAN [] (dev (issued tr @ [(CMD_HF14A_SCAN, [])]))]"
  show ?case
  proof (cases "dev (issued tr @ [(CMD_HF14A_SCAN, [])])")
    case Times_out
    then have "snd (scan_loop dev attempt tr) = ?tr"
      by (subst scan_loop.simps) (simp add: Let_def)
    with "1.prems" show ?thesis by (auto simp: issued_append)
  next
    case (Responds r)
    show ?thesis
    proof (cases "length (resp_data r) > 0 \<or> \<not> attempt < 5")
      case True
      with Responds have "snd (scan_loop dev attempt tr) = ?tr"
        by (subst scan_loop.simps) (auto simp add: Let_def)
      with "1.prems" show ?thesis by (auto simp: issued_append)
    next
      case False
      with Responds have "scan_loop dev attempt tr = scan_loop dev (attempt + 1) ?tr"
        by (subst scan_loop.simps) (simp add: Let_def)
      with "1.prems" have "x \<in> set (issued (snd (scan_loop dev (attempt + 1) ?tr)))"
        by simp
      with "1.IH" [OF refl refl Responds] False Responds
      have "x \<in> set (issued ?tr) \<or> fst x = CMD_HF14A_SCAN" by simp
      then show ?thesis by (auto simp: issued_append)
    qed
  qed
qed

lemma read_tag_pages_issued:
  "x \<in> set (issued (snd (read_tag_pages dev page allData tr))) \<Longrightarrow>
     x \<in> set (issued tr) \<or> fst x = CMD_HF14A_RAW"
proof (induction dev page allData tr rule: read_tag_pages.induct)
  case (1 dev page allData tr)
  let ?readCmd = "[u8 (if page = 0 then 128 + 64 + 32 + 16 + 8 + 4 else 128 + 64 + 32 + 8 + 4),
                       u8 (drop_bit 8 100 AND 0xFF), u8 (100 AND 0xFF),
                       u8 (drop_bit 8 (length [0x30, u8 page] * 8) AND 0xFF),
                       u8 (length [0x30 :: byte, u8 page] * 8 AND 0xFF)] @ [0x30, u8 page]"
  let ?out = "dev (issued tr @ [(CMD_HF14A_RAW, ?readCmd)])"
  let ?tr = "tr @ [Cmd CMD_HF14A_RAW ?readCmd ?out]"
  show ?case
  proof (cases "page < 135")
    case False
    then have "snd (read_tag_pages dev page allData tr) = tr"
      by (subst read_tag_pages.simps) (simp add: Let_def)
    with "1.prems" show ?thesis by simp
  next
    case True
    show ?thesis
    proof (cases ?out)
      case Times_out
      with True have "snd (read_tag_pages dev page allData tr) = ?tr"
        by (subst read_tag_pages.simps) (simp add: Let_def)
      with "1.prems" show ?thesis by (auto simp: issued_append)
    next
      case (Responds r)
      show ?thesis
      proof (cases "resp_status r \<noteq> 0")
        case bad: True
        with True Responds have "\<exists>m. snd (read_tag_pages dev page allData tr) = ?tr @ [Log_error m]"
          by (subst read_tag_pages.simps) (simp add: Let_def)
        with "1.prems" show ?thesis by (auto simp: issued_append)
      next
        case ok: False
        let ?all = "set_at allData (slice_arr (slice_arr (resp_data r) 0 16) 0 (min 16 ((135 - page) * 4))) (page * 4)"
        from True Responds ok
        have "read_tag_pages dev page allData tr = read_tag_pages dev (page + 4) ?all ?tr"
          by (subst read_tag_pages.simps) (simp add: Let_def)
        with "1.prems" have "x \<in> set (issued (snd (read_tag_pages dev (page + 4) ?all ?tr)))"
          by simp
        with "1.IH" [OF refl refl True refl refl refl refl refl refl refl Responds _ refl refl] ok
        have "x \<in> set (issued ?tr) \<or> fst x = CMD_HF14A_RAW" by simp
        then show ?thesis by (auto simp: issued_append)
      qed
    qed
  qed
qed

lemma scan_loop_issued':
  "scan_loop dev attempt tr = (e, tr') \<Longrightarrow> x \<in> set (issued tr') \<Longrightarrow>
     x \<in> set (issued tr) \<or> fst x = CMD_HF14A_SCAN"
  using scan_loop_issued [of x dev attempt tr] by simp

lemma read_tag_pages_issued':
  "read_tag_pages dev page allData tr = (e, tr') \<Longrightarrow> x \<in> set (issued tr') \<Longrightarrow>
     x \<in> set (issued tr) \<or> fst x = CMD_HF14A_RAW"
  using read_tag_pages_issued [of x dev page allData tr] by simp

lemma scan_body_issued:
  assumes "x \<in> set (issued (snd (scan_body dev timestamp fs_writeFile tr)))"
  shows "x \<in> set (issued tr) \<or> x = (CMD_SET_ACTIVE_MODE, [1])
         \<or> fst x = CMD_HF14A_SCAN \<or> fst x = CMD_HF14A_RAW"
  using assms
  by (auto simp: scan_body_def device_cmd_def Let_def issued_append
           split: cmd_outcome.splits if_splits prod.splits exit.splits
           dest!: scan_loop_issued' read_tag_pages_issued')

lemma read_units_done: "\<not> unitIndex < totalUnits \<Longrightarrow>
    read_units dev command noun totalUnits unitIndex allData tr = (Finished allData, tr)"
  by (subst read_units.simps) simp

lemma read_units_ok:
  assumes "unitIndex < totalUnits"
    and "dev (issued tr @ [(command, [u8 unitIndex, u8 (min 32 (totalUnits - unitIndex))])]) = Responds r"
    and "resp_status r = 0x68"
  shows "read_units dev command noun totalUnits unitIndex allData tr =
     read_units dev command noun totalUnits (unitIndex + 32) (allData @ resp_data r)
       (tr @ [Cmd command [u8 unitIndex, u8 (min 32 (totalUnits - unitIndex))] (Responds r)])"
  using assms by (subst read_units.simps) (simp add: Let_def)

lemma u8_numeral [simp]: "u8 (numeral n) = numeral n" "u8 0 = 0"
  by (simp_all add: u8_def)

lemma written_append: "written (a @ b) = written a @ written b"
  by (induction a rule: written.induct) simp_all

lemma read_units_abort:
  "\<exists>new. snd (read_units dev command noun totalUnits unitIndex allData tr) = tr @ new
      \<and> written new = []
      \<and> (filter failed_chunk new \<noteq> [] \<longrightarrow>
            fst (read_units dev command noun totalUnits unitIndex allData tr) = Return_early
            \<and> (\<exists>pre e msg. new = pre @ [e, Log_error msg] \<and> failed_chunk e
                  \<and> filter failed_chunk pre = []))"
proof (induction dev command noun totalUnits unitIndex allData tr rule: read_units.induct)
  case (1 dev command noun totalUnits unitIndex allData tr)
  let ?run = "read_units dev command noun totalUnits unitIndex allData tr"
  let ?cmdData = "[u8 unitIndex, u8 (min 32 (totalUnits - unitIndex))]"
  let ?out = "dev (issued tr @ [(command, ?cmdData)])"
  let ?ev = "Cmd command ?cmdData ?out"
  show ?case
  proof (cases "unitIndex < totalUnits")
    case False
    then have "?run = (Finished allData, tr)"
      by (subst read_units.simps) simp
    then show ?thesis by simp
  next
    case True
    show ?thesis
    proof (cases ?out)
      case Times_out
      with True have "?run = (Throw ''Command response timed out'', tr @ [?ev])"
        by (subst read_units.simps) (simp add: Let_def)
      then show ?thesis using Times_out by simp
    next
      case (Responds r)
      show ?thesis
      proof (cases "resp_status r \<noteq> 0x68")
        case bad: True
        with True Responds have "\<exists>m. ?run = (Return_early, tr @ [?ev, Log_error m])"
          by (subst read_units.simps) (simp add: Let_def)
        then obtain m where run: "?run = (Return_early, tr @ [?ev, Log_error m])" ..
        have fe: "failed_chunk ?ev" using Responds bad by simp
        show ?thesis unfolding run
        proof (rule exI [of _ "[?ev, Log_error m]"], intro conjI impI)
          show "snd (Return_early, tr @ [?ev, Log_error m]) = tr @ [?ev, Log_error m]" by simp
          show "written [?ev, Log_error m] = []" by simp
          show "fst (Return_early, tr @ [?ev, Log_error m]) = Return_early" by simp
          show "\<exists>pre e msg. [?ev, Log_error m] = pre @ [e, Log_error msg] \<and> failed_chunk e
                  \<and> filter failed_chunk pre = []"
            using fe by (rule_tac x = "[]" in exI, rule_tac x = "?ev" in exI, rule_tac x = m in exI) simp
        qed
      next
        case ok: False
        let ?next = "read_units dev command noun totalUnits (unitIndex + 32)
                       (allData @ resp_data r) (tr @ [?ev])"
        from True Responds ok have run: "?run = ?next"
          by (subst read_units.simps) (simp add: Let_def)
        from "1.IH" [OF True refl refl refl refl Responds] ok
        obtain new where new: "snd ?next = (tr @ [?ev]) @ new" "written new = []"
          "filter failed_chunk new \<noteq> [] \<longrightarrow> fst ?next = Return_early
            \<and> (\<exists>pre e msg. new = pre @ [e, Log_error msg] \<and> failed_chunk e
                  \<and> filter failed_chunk pre = [])"
          by auto
        have nf: "\<not> failed_chunk ?ev" using Responds ok by simp
        show ?thesis
        proof (rule exI [of _ "?ev # new"], intro conjI impI)
          show "snd ?run = tr @ ?ev # new" using run new(1) by simp
          show "written (?ev # new) = []" using new(2) by simp
          assume "filter failed_chunk (?ev # new) \<noteq> []"
          then have f: "filter failed_chunk new \<noteq> []" using nf by simp
          with new(3) show "fst ?run = Return_early" using run by simp
          from new(3) f obtain pre e msg where
            "new = pre @ [e, Log_error msg]" "failed_chunk e" "filter failed_chunk pre = []"
            by blast
          then have "?ev # new = (?ev # pre) @ [e, Log_error msg] \<and> failed_chunk e
                       \<and> filter failed_chunk (?ev # pre) = []"
            using nf by simp
          then show "\<exists>pre e msg. ?ev # new = pre @ [e, Log_error msg] \<and> failed_chunk e
                       \<and> filter failed_chunk pre = []"
            by blast
        qed
      qed
    qed
  qed
qed

lemma write_units_abort:
  "\<exists>new. snd (write_units dev command noun unitSize withCount fileData totalUnits unitIndex tr) = tr @ new
      \<and> written new = []
      \<and> (filter failed_chunk new \<noteq> [] \<longrightarrow>
            fst (write_units dev command noun unitSize withCount fileData totalUnits unitIndex tr) = Return_early
            \<and> (\<exists>pre e msg. new = pre @ [e, Log_error msg] \<and> failed_chunk e
                  \<and> filter failed_chunk pre = []))"
proof (induction dev command noun unitSize withCount fileData totalUnits unitIndex tr rule: write_units.induct)
  case (1 dev command noun unitSize withCount fileData totalUnits unitIndex tr)
  let ?run = "write_units dev command noun unitSize withCount fileData totalUnits unitIndex tr"
  let ?cmdData = "batch_data withCount unitSize fileData unitIndex (min 32 (totalUnits - unitIndex))"
  let ?out = "dev (issued tr @ [(command, ?cmdData)])"
  let ?ev = "Cmd command ?cmdData ?out"
  show ?case
  proof (cases "unitIndex < totalUnits")
    case False
    then have "?run = (Finished (), tr)"
      by (subst write_units.simps) simp
    then show ?thesis by simp
  next
    case True
    show ?thesis
    proof (cases ?out)
      case Times_out
      with True have "?run = (Throw ''Command response timed out'', tr @ [?ev])"
        by (subst write_units.simps) (simp add: Let_def)
      then show ?thesis using Times_out by simp
    next
      case (Responds r)
      show ?thesis
      proof (cases "resp_status r \<noteq> 0x68")
        case bad: True
        with True Responds have "\<exists>m. ?run = (Return_early, tr @ [?ev, Log_error m])"
          by (subst write_units.simps) (simp add: Let_def)
        then obtain m where run: "?run = (Return_early, tr @ [?ev, Log_error m])" ..
        have fe: "failed_chunk ?ev" using Responds bad by simp
        show ?thesis unfolding run
        proof (rule exI [of _ "[?ev, Log_error m]"], intro conjI impI)
          show "snd (Return_early, tr @ [?ev, Log_error m]) = tr @ [?ev, Log_error m]" by simp
          show "written [?ev, Log_error m] = []" by simp
          show "fst (Return_early, tr @ [?ev, Log_error m]) = Return_early" by simp
          show "\<exists>pre e msg. [?ev, Log_error m] = pre @ [e, Log_error msg] \<and> failed_chunk e
                  \<and> filter failed_chunk pre = []"
            using fe by (rule_tac x = "[]" in exI, rule_tac x = "?ev" in exI, rule_tac x = m in exI) simp
        qed
      next
        case ok: False
        let ?next = "write_units dev command noun unitSize withCount fileData totalUnits
                       (unitIndex + 32) (tr @ [?ev])"
        from True Responds ok have run: "?run = ?next"
          by (subst write_units.simps) (simp add: Let_def)
        from "1.IH" [OF True refl refl refl refl Responds] ok
        obtain new where new: "snd ?next = (tr @ [?ev]) @ new" "written new = []"
          "filter failed_chunk new \<noteq> [] \<longrightarrow> fst ?next = Return_early
            \<and> (\<exists>pre e msg. new = pre @ [e, Log_error msg] \<and> failed_chunk e
                  \<and> filter failed_chunk pre = [])"
          by auto
        have nf: "\<not> failed_chunk ?ev" using Responds ok by simp
        show ?thesis
        proof (rule exI [of _ "?ev # new"], intro conjI impI)
          show "snd ?run = tr @ ?ev # new" using run new(1) by simp
          show "written (?ev # new) = []" using new(2) by simp
          assume "filter failed_chunk (?ev # new) \<noteq> []"
          then have f: "filter failed_chunk new \<noteq> []" using nf by simp
          with new(3) show "fst ?run = Return_early" using run by simp
          from new(3) f obtain pre e msg where
            "new = pre @ [e, Log_error msg]" "failed_chunk e" "filter failed_chunk pre = []"
            by blast
          then have "?ev # new = (?ev # pre) @ [e, Log_error msg] \<and> failed_chunk e
                       \<and> filter failed_chunk (?ev # pre) = []"
            using nf by simp
          then show "\<exists>pre e msg. ?ev # new = pre @ [e, Log_error msg] \<and> failed_chunk e
                       \<and> filter failed_chunk pre = []"
            by blast
        qed
      qed
    qed
  qed
qed

lemma filter_failed_append: "filter failed_chunk (a @ b) = filter failed_chunk a @ filter failed_chunk b"
  by simp

lemma single_cmd_abort:
  assumes "run = (case device_cmd dev c d tr of
              (Times_out, tr') \<Rightarrow> (Throw err, tr')
            | (Responds r, tr') \<Rightarrow>
                if resp_status r \<noteq> 0x68 then (Return_early, tr' @ [Log_error (m r)])
                else (Finished (v r), tr'))"
  shows "\<exists>new. snd run = tr @ new \<and> written new = []
      \<and> (filter failed_chunk new \<noteq> [] \<longrightarrow> fst run = Return_early
            \<and> (\<exists>pre e msg. new = pre @ [e, Log_error msg] \<and> failed_chunk e
                  \<and> filter failed_chunk pre = []))"
proof (cases "dev (issued tr @ [(c, d)])")
  case Times_out
  then have "run = (Throw err, tr @ [Cmd c d Times_out])"
    by (simp add: assms device_cmd_def Let_def)
  then show ?thesis by simp
next
  case (Responds r)
  show ?thesis
  proof (cases "resp_status r \<noteq> 0x68")
    case True
    with Responds have run: "run = (Return_early, tr @ [Cmd c d (Responds r), Log_error (m r)])"
      by (simp add: assms device_cmd_def Let_def)
    show ?thesis unfolding run
    proof (rule exI [of _ "[Cmd c d (Responds r), Log_error (m r)]"], intro conjI impI)
      show "\<exists>pre e msg. [Cmd c d (Responds r), Log_error (m r)] = pre @ [e, Log_error msg]
              \<and> failed_chunk e \<and> filter failed_chunk pre = []"
        using True
        by (rule_tac x = "[]" in exI, rule_tac x = "Cmd c d (Responds r)" in exI,
            rule_tac x = "m r" in exI) simp
    qed simp_all
  next
    case False
    with Responds have "run = (Finished (v r), tr @ [Cmd c d (Responds r)])"
      by (simp add: assms device_cmd_def Let_def)
    then show ?thesis using False by simp
  qed
qed

lemma slot_save_read_abort:
  "\<exists>new. snd (slot_save_read dev freq tagTypeNum tagTypeName tr) = tr @ new
      \<and> written new = []
      \<and> (filter failed_chunk new \<noteq> [] \<longrightarrow>
            fst (slot_save_read dev freq tagTypeNum tagTypeName tr) = Return_early
            \<and> (\<exists>pre e msg. new = pre @ [e, Log_error msg] \<and> failed_chunk e
                  \<and> filter failed_chunk pre = []))"
proof (cases freq)
  case Hf
  consider (ntag) "tagTypeNum \<ge> 1100 \<and> tagTypeNum \<le> 1108"
    | (mf) "\<not> (tagTypeNum \<ge> 1100 \<and> tagTypeNum \<le> 1108)" "tagTypeNum \<ge> 1000 \<and> tagTypeNum \<le> 1003"
    | (other) "\<not> (tagTypeNum \<ge> 1100 \<and> tagTypeNum \<le> 1108)" "\<not> (tagTypeNum \<ge> 1000 \<and> tagTypeNum \<le> 1003)"
    by blast
  then show ?thesis
  proof cases
    case ntag
    then have "slot_save_read dev freq tagTypeNum tagTypeName tr =
        read_units dev CMD_MF0_NTAG_READ_EMU_PAGE_DATA ''pages'' (pageCounts tagTypeNum) 0 [] tr"
      by (simp add: slot_save_read_def Hf)
    then show ?thesis using read_units_abort by simp
  next
    case mf
    then have "slot_save_read dev freq tagTypeNum tagTypeName tr =
        read_units dev CMD_MF1_READ_EMU_BLOCK_DATA ''blocks'' (blockCounts tagTypeNum) 0 [] tr"
      by (simp add: slot_save_read_def Hf)
    then show ?thesis using read_units_abort by simp
  next
    case other
    then have "\<exists>m. slot_save_read dev freq tagTypeNum tagTypeName tr = (Return_early, tr @ [Log_error m])"
      by (auto simp add: slot_save_read_def Hf)
    then show ?thesis by auto
  qed
next
  case Lf
  show ?thesis
  proof (cases "tagTypeNum = 100 \<or> (tagTypeNum \<ge> 100 \<and> tagTypeNum \<le> 103)")
    case True
    show ?thesis
      by (rule single_cmd_abort [where c = CMD_EM410X_GET_EMU_ID and d = "[]"
            and err = "''Command response timed out''"
            and m = "\<lambda>r. ''Error reading EM410X ID: Status '' @ toString 10 (int (resp_status r))"
            and v = "\<lambda>r. slice_arr (resp_data r) 0 5"])
         (use True in \<open>simp add: slot_save_read_def Lf\<close>)
  next
    case False
    then have "\<exists>m. slot_save_read dev freq tagTypeNum tagTypeName tr = (Return_early, tr @ [Log_error m])"
      by (auto simp add: slot_save_read_def Lf)
    then show ?thesis by auto
  qed
qed

lemma slot_load_data_abort:
  "\<exists>new. snd (slot_load_data dev freq tagTypeName tagTypeValue fileData tr) = tr @ new
      \<and> written new = []
      \<and> (filter failed_chunk new \<noteq> [] \<longrightarrow>
            fst (slot_load_data dev freq tagTypeName tagTypeValue fileData tr) = Return_early
            \<and> (\<exists>pre e msg. new = pre @ [e, Log_error msg] \<and> failed_chunk e
                  \<and> filter failed_chunk pre = []))"
proof -
  let ?run = "slot_load_data dev freq tagTypeName tagTypeValue fileData tr"
  consider (ntag) "freq = ''hf''" "tagTypeValue \<ge> 1100 \<and> tagTypeValue \<le> 1108"
    | (mf) "freq = ''hf''" "\<not> (tagTypeValue \<ge> 1100 \<and> tagTypeValue \<le> 1108)"
           "tagTypeValue \<ge> 1000 \<and> tagTypeValue \<le> 1003"
    | (em) "freq = ''lf''" "tagTypeValue = 100" "\<not> length fileData < 5"
    | (logged) "\<exists>m. ?run = (Return_early, tr @ [Log_error m])"
    | (nothing) "?run = (Finished (), tr)"
    by (cases "freq = ''hf''"; cases "freq = ''lf''";
        cases "tagTypeValue \<ge> 1100 \<and> tagTypeValue \<le> 1108";
        cases "tagTypeValue \<ge> 1000 \<and> tagTypeValue \<le> 1003";
        cases "tagTypeValue = 100"; cases "length fileData < 5")
       (simp_all add: slot_load_data_def)
  then show ?thesis
  proof cases
    case ntag
    then have "?run = write_units dev CMD_MF0_NTAG_WRITE_EMU_PAGE_DATA ''pages'' 4 True fileData
           (ceil_div (length fileData) 4) 0 tr"
      by (simp add: slot_load_data_def)
    then show ?thesis using write_units_abort by simp
  next
    case mf
    then have "?run = write_units dev CMD_MF1_WRITE_EMU_BLOCK_DATA ''blocks'' 16 False fileData
           (ceil_div (length fileData) 16) 0 tr"
      by (auto simp add: slot_load_data_def)
    then show ?thesis using write_units_abort by simp
  next
    case em
    show ?thesis
      by (rule single_cmd_abort [where c = CMD_EM410X_SET_EMU_ID and d = "slice_arr fileData 0 5"
            and err = "''Command response timed out''"
            and m = "\<lambda>r. ''Error writing EM410X ID: Status '' @ toString 10 (int (resp_status r))"
            and v = "\<lambda>r. ()"])
         (use em in \<open>simp add: slot_load_data_def\<close>)
  next
    case logged
    then show ?thesis by auto
  next
    case nothing
    then show ?thesis by simp
  qed
qed

lemma refused_save:
  "slot_save refusing_device Hf 1101 ''NTAG 215'' ''dump.bin'' writeFile_ok [] =
     (Return_early,
      [Cmd CMD_MF0_NTAG_READ_EMU_PAGE_DATA [0, 32]
         (Responds \<lparr>resp_cmd = CMD_MF0_NTAG_READ_EMU_PAGE_DATA, resp_status = 0x60, resp_data = []\<rparr>),
       Log_error ''Error reading pages 0-31: Status 96''])"
  apply (simp add: slot_save_def slot_save_read_def pageCounts_def Let_def)
  apply (subst read_units.simps)
  apply (simp add: refusing_device_def Let_def toString_def digits_small digits_step digit_char_def)
  done

lemma refused_load_data:
  "slot_load_data refusing_device ''hf'' ''ntag215'' 1101 [1, 2, 3, 4, 5] [] =
     (Return_early,
      [Cmd CMD_MF0_NTAG_WRITE_EMU_PAGE_DATA (batch_data True 4 [1, 2, 3, 4, 5] 0 2)
         (Responds \<lparr>resp_cmd = CMD_MF0_NTAG_WRITE_EMU_PAGE_DATA, resp_status = 0x60, resp_data = []\<rparr>),
       Log_error ''Error writing pages 0-1: Status 96''])"
  apply (simp add: slot_load_data_def ceil_div_def)
  apply (subst write_units.simps)
  apply (simp add: refusing_device_def Let_def toString_def digits_small digits_step digit_char_def)
  done

text \<open>
  The chunk loops leave by \<open>return\<close> only right after a refused chunk, and the
  trace then ends with that request and its error line.
\<close>

lemma read_units_return:
  "fst (read_units dev command noun totalUnits unitIndex allData tr) = Return_early \<Longrightarrow>
     \<exists>pre i r. snd (read_units dev command noun totalUnits unitIndex allData tr) =
         pre @ [Cmd command [u8 i, u8 (min 32 (totalUnits - i))] (Responds r),
                Log_error (chunk_error_line ''reading'' noun i (min 32 (totalUnits - i))
                             (resp_status r))]
       \<and> resp_status r \<noteq> 0x68 \<and> i < totalUnits"
proof (induction dev command noun totalUnits unitIndex allData tr rule: read_units.induct)
  case (1 dev command noun totalUnits unitIndex allData tr)
  let ?run = "read_units dev command noun totalUnits unitIndex allData tr"
  let ?cmdData = "[u8 unitIndex, u8 (min 32 (totalUnits - unitIndex))]"
  let ?out = "dev (issued tr @ [(command, ?cmdData)])"
  let ?ev = "Cmd command ?cmdData ?out"
  show ?case
  proof (cases "unitIndex < totalUnits")
    case False
    then have "?run = (Finished allData, tr)"
      by (subst read_units.simps) simp
    with "1.prems" show ?thesis by simp
  next
    case True
    show ?thesis
    proof (cases ?out)
      case Times_out
      with True have "?run = (Throw ''Command response timed out'', tr @ [?ev])"
        by (subst read_units.simps) (simp add: Let_def)
      with "1.prems" show ?thesis by simp
    next
      case (Responds r)
      show ?thesis
      proof (cases "resp_status r \<noteq> 0x68")
        case bad: True
        with True Responds have "?run = (Return_early,
            tr @ [Cmd command ?cmdData (Responds r),
                  Log_error (chunk_error_line ''reading'' noun unitIndex
                     (min 32 (totalUnits - unitIndex)) (resp_status r))])"
          by (subst read_units.simps) (simp add: Let_def chunk_error_line_def)
        then show ?thesis using bad True by auto
      next
        case ok: False
        let ?next = "read_units dev command noun totalUnits (unitIndex + 32)
                       (allData @ resp_data r) (tr @ [?ev])"
        from True Responds ok have run: "?run = ?next"
          by (subst read_units.simps) (simp add: Let_def)
        with "1.prems" have "fst ?next = Return_early" by simp
        with "1.IH" [OF True refl refl refl refl Responds] ok
        show ?thesis unfolding run by simp
      qed
    qed
  qed
qed

lemma write_units_return:
  "fst (write_units dev command noun unitSize withCount fileData totalUnits unitIndex tr) = Return_early \<Longrightarrow>
     \<exists>pre i r. snd (write_units dev command noun unitSize withCount fileData totalUnits unitIndex tr) =
         pre @ [Cmd command (batch_data withCount unitSize fileData i (min 32 (totalUnits - i)))
                  (Responds r),
                Log_error (chunk_error_line ''writing'' noun i (min 32 (totalUnits - i))
                             (resp_status r))]
       \<and> resp_status r \<noteq> 0x68 \<and> i < totalUnits"
proof (induction dev command noun unitSize withCount fileData totalUnits unitIndex tr
        rule: write_units.induct)
  case (1 dev command noun unitSize withCount fileData totalUnits unitIndex tr)
  let ?run = "write_units dev command noun unitSize withCount fileData totalUnits unitIndex tr"
  let ?cmdData = "batch_data withCount unitSize fileData unitIndex (min 32 (totalUnits - unitIndex))"
  let ?out = "dev (issued tr @ [(command, ?cmdData)])"
  let ?ev = "Cmd command ?cmdData ?out"
  show ?case
  proof (cases "unitIndex < totalUnits")
    case False
    then have "?run = (Finished (), tr)"
      by (subst write_units.simps) simp
    with "1.prems" show ?thesis by simp
  next
    case True
    show ?thesis
    proof (cases ?out)
      case Times_out
      with True have "?run = (Throw ''Command response timed out'', tr @ [?ev])"
        by (subst write_units.simps) (simp add: Let_def)
      with "1.prems" show ?thesis by simp
    next
      case (Responds r)
      show ?thesis
      proof (cases "resp_status r \<noteq> 0x68")
        case bad: True
        with True Responds have "?run = (Return_early,
            tr @ [Cmd command ?cmdData (Responds r),
                  Log_error (chunk_error_line ''writing'' noun unitIndex
                     (min 32 (totalUnits - unitIndex)) (resp_status r))])"
          by (subst write_units.simps) (simp add: Let_def chunk_error_line_def)
        then show ?thesis using bad True by auto
      next
        case ok: False
        let ?next = "write_units dev command noun unitSize withCount fileData totalUnits
                       (unitIndex + 32) (tr @ [?ev])"
        from True Responds ok have run: "?run = ?next"
          by (subst write_units.simps) (simp add: Let_def)
        with "1.prems" have "fst ?next = Return_early" by simp
        with "1.IH" [OF True refl refl refl refl Responds] ok
        show ?thesis unfolding run by simp
      qed
    qed
  qed
qed

lemma slot_save_aborted:
  assumes f: "filter failed_chunk (snd (slot_save dev freq tagTypeNum tagTypeName filePath writeFile [])) \<noteq> []"
  shows "fst (slot_save_read dev freq tagTypeNum tagTypeName []) = Return_early"
    and "slot_save dev freq tagTypeNum tagTypeName filePath writeFile [] =
           (Return_early, snd (slot_save_read dev freq tagTypeNum tagTypeName []))"
    and "written (snd (slot_save_read dev freq tagTypeNum tagTypeName [])) = []"
    and "\<exists>pre e msg. snd (slot_save_read dev freq tagTypeNum tagTypeName []) = pre @ [e, Log_error msg]
            \<and> failed_chunk e \<and> filter failed_chunk pre = []"
proof -
  let ?read = "slot_save_read dev freq tagTypeNum tagTypeName []"
  let ?save = "slot_save dev freq tagTypeNum tagTypeName filePath writeFile []"
  from slot_save_read_abort [of dev freq tagTypeNum tagTypeName "[]"]
  obtain new where new: "snd ?read = new" "written new = []"
    "filter failed_chunk new \<noteq> [] \<longrightarrow> fst ?read = Return_early
       \<and> (\<exists>pre e msg. new = pre @ [e, Log_error msg] \<and> failed_chunk e \<and> filter failed_chunk pre = [])"
    by auto
  show early: "fst ?read = Return_early"
  proof (rule ccontr)
    assume ne: "fst ?read \<noteq> Return_early"
    with new(3) have nf: "filter failed_chunk new = []" by blast
    have "filter failed_chunk (snd ?save) = []"
      using ne nf new(1)
      by (cases ?read; cases "fst ?read")
         (auto simp add: slot_save_def Let_def split: option.splits)
    with f show False by simp
  qed
  then show save: "?save = (Return_early, snd ?read)"
    by (cases ?read) (simp add: slot_save_def Let_def)
  show "written (snd ?read) = []" using new by simp
  show "\<exists>pre e msg. snd ?read = pre @ [e, Log_error msg] \<and> failed_chunk e \<and> filter failed_chunk pre = []"
    using new f save by simp
qed

lemma slot_load_aborted:
  assumes f: "filter failed_chunk (snd (slot_load_data dev freq typeName tagTypeValue fileData [])) \<noteq> []"
  shows "fst (slot_load_data dev freq typeName tagTypeValue fileData []) = Return_early"
    and "slot_load dev freq typeName tagTypeValue fileData saveToFlash [] =
           (Return_early, snd (slot_load_data dev freq typeName tagTypeValue fileData []))"
    and "\<exists>pre e msg. snd (slot_load_data dev freq typeName tagTypeValue fileData []) = pre @ [e, Log_error msg]
            \<and> failed_chunk e \<and> filter failed_chunk pre = []"
proof -
  let ?data = "slot_load_data dev freq typeName tagTypeValue fileData []"
  from slot_load_data_abort [of dev freq typeName tagTypeValue fileData "[]"]
  obtain new where new: "snd ?data = new"
    "filter failed_chunk new \<noteq> [] \<longrightarrow> fst ?data = Return_early
       \<and> (\<exists>pre e msg. new = pre @ [e, Log_error msg] \<and> failed_chunk e \<and> filter failed_chunk pre = [])"
    by auto
  with f show early: "fst ?data = Return_early" by simp
  then show "slot_load dev freq typeName tagTypeValue fileData saveToFlash [] = (Return_early, snd ?data)"
    by (cases ?data) (simp add: slot_load_def Let_def)
  show "\<exists>pre e msg. snd ?data = pre @ [e, Log_error msg] \<and> failed_chunk e \<and> filter failed_chunk pre = []"
    using new f by simp
qed

lemma failed_tail:
  assumes "evs = pre @ [e, Log_error msg]" "filter failed_chunk pre = []"
    and "evs = pre' @ [e', Log_error msg']"
  shows "filter failed_chunk pre' = []"
proof -
  have "pre @ [e, Log_error msg] = pre' @ [e', Log_error msg']" using assms(1,3) by simp
  then have "pre = pre'" by simp
  with assms(2) show ?thesis by simp
qed

lemma save_chunk_failure:
  assumes rd: "slot_save_read dev freq tagTypeNum tagTypeName [] =
                 read_units dev command noun totalUnits 0 [] []"
    and f: "filter failed_chunk (snd (slot_save dev freq tagTypeNum tagTypeName filePath writeFile [])) \<noteq> []"
  shows "fst (slot_save dev freq tagTypeNum tagTypeName filePath writeFile []) = Return_early
     \<and> written (snd (slot_save dev freq tagTypeNum tagTypeName filePath writeFile [])) = []
     \<and> (\<exists>pre i r. snd (slot_save dev freq tagTypeNum tagTypeName filePath writeFile []) =
           pre @ [Cmd command [u8 i, u8 (min 32 (totalUnits - i))] (Responds r),
                  Log_error (chunk_error_line ''reading'' noun i (min 32 (totalUnits - i))
                               (resp_status r))]
         \<and> resp_status r \<noteq> 0x68 \<and> i < totalUnits \<and> filter failed_chunk pre = [])"
proof -
  let ?read = "slot_save_read dev freq tagTypeNum tagTypeName []"
  note a = slot_save_aborted [OF f]
  from a(1) rd have "fst (read_units dev command noun totalUnits 0 [] []) = Return_early" by simp
  from read_units_return [OF this] rd
  obtain pre i r where tail: "snd ?read =
         pre @ [Cmd command [u8 i, u8 (min 32 (totalUnits - i))] (Responds r),
                Log_error (chunk_error_line ''reading'' noun i (min 32 (totalUnits - i))
                             (resp_status r))]"
       "resp_status r \<noteq> 0x68" "i < totalUnits"
    by auto
  from a(4) obtain pre0 e msg where "snd ?read = pre0 @ [e, Log_error msg]"
      "filter failed_chunk pre0 = []" by blast
  then have "filter failed_chunk pre = []" using tail(1) by (rule failed_tail)
  with tail a(2,3) show ?thesis by auto
qed

lemma load_chunk_failure:
  assumes wr: "slot_load_data dev freq typeName tagTypeValue fileData [] =
                 write_units dev command noun unitSize withCount fileData totalUnits 0 []"
    and f: "filter failed_chunk (snd (slot_load_data dev freq typeName tagTypeValue fileData [])) \<noteq> []"
  shows "fst (slot_load dev freq typeName tagTypeValue fileData saveToFlash []) = Return_early
     \<and> snd (slot_load dev freq typeName tagTypeValue fileData saveToFlash [])
         = snd (slot_load_data dev freq typeName tagTypeValue fileData [])
     \<and> (\<exists>pre i r. snd (slot_load dev freq typeName tagTypeValue fileData saveToFlash []) =
           pre @ [Cmd command (batch_data withCount unitSize fileData i (min 32 (totalUnits - i)))
                    (Responds r),
                  Log_error (chunk_error_line ''writing'' noun i (min 32 (totalUnits - i))
                               (resp_status r))]
         \<and> resp_status r \<noteq> 0x68 \<and> i < totalUnits \<and> filter failed_chunk pre = [])"
proof -
  let ?data = "slot_load_data dev freq typeName tagTypeValue fileData []"
  note a = slot_load_aborted [OF f]
  from a(1) wr have "fst (write_units dev command noun unitSize withCount fileData totalUnits 0 [])
      = Return_early" by simp
  from write_units_return [OF this] wr
  obtain pre i r where tail: "snd ?data =
         pre @ [Cmd command (batch_data withCount unitSize fileData i (min 32 (totalUnits - i)))
                  (Responds r),
                Log_error (chunk_error_line ''writing'' noun i (min 32 (totalUnits - i))
                             (resp_status r))]"
       "resp_status r \<noteq> 0x68" "i < totalUnits"
    by auto
  from a(3) obtain pre0 e msg where "snd ?data = pre0 @ [e, Log_error msg]"
      "filter failed_chunk pre0 = []" by blast
  then have "filter failed_chunk pre = []" using tail(1) by (rule failed_tail)
  with tail a(2) show ?thesis by auto
qed

lemma refused_save_blocks:
  "slot_save refusing_device Hf 1001 ''Mifare 1K'' ''dump.bin'' writeFile_ok [] =
     (Return_early,
      [Cmd CMD_MF1_READ_EMU_BLOCK_DATA [0, 32]
         (Responds \<lparr>resp_cmd = CMD_MF1_READ_EMU_BLOCK_DATA, resp_status = 0x60, resp_data = []\<rparr>),
       Log_error ''Error reading blocks 0-31: Status 96''])"
  apply (simp add: slot_save_def slot_save_read_def blockCounts_def Let_def)
  apply (subst read_units.simps)
  apply (simp add: refusing_device_def Let_def toString_def digits_small digits_step digit_char_def)
  done

lemma refused_load_blocks:
  "slot_load_data refusing_device ''hf'' ''mf1k'' 1001 [1, 2, 3, 4, 5] [] =
     (Return_early,
      [Cmd CMD_MF1_WRITE_EMU_BLOCK_DATA (batch_data False 16 [1, 2, 3, 4, 5] 0 1)
         (Responds \<lparr>resp_cmd = CMD_MF1_WRITE_EMU_BLOCK_DATA, resp_status = 0x60, resp_data = []\<rparr>),
       Log_error ''Error writing blocks 0-0: Status 96''])"
  apply (simp add: slot_load_data_def ceil_div_def)
  apply (subst write_units.simps)
  apply (simp add: refusing_device_def Let_def toString_def digits_small digits_step digit_char_def)
  done

lemma chunk_error_line_example:
  "chunk_error_line ''reading'' ''pages'' 0 32 96 = ''Error reading pages 0-31: Status 96''"
  by (simp add: chunk_error_line_def toString_def digits_small digits_step digit_char_def)

text \<open>
  Three runs of the scanner script after reader mode was entered, one for each way of
  leaving the body: a page read that times out, a page read that the tag refuses, and a
  tag that is read to the end.
\<close>

lemma scan_loop_found:
  "dev (issued tr @ [(CMD_HF14A_SCAN, [])]) = Responds r \<Longrightarrow> resp_data r \<noteq> [] \<Longrightarrow>
     scan_loop dev attempt tr = (Finished r, tr @ [Cmd CMD_HF14A_SCAN [] (Responds r)])"
  by (subst scan_loop.simps) (simp add: Let_def)

lemma tag_device_mode:
  "fst (last h) = CMD_SET_ACTIVE_MODE \<Longrightarrow> tag_device raw h =
      Responds \<lparr>resp_cmd = CMD_SET_ACTIVE_MODE, resp_status = 0x68, resp_data = []\<rparr>"
  by (simp add: tag_device_def)

lemma tag_device_scan:
  "fst (last h) = CMD_HF14A_SCAN \<Longrightarrow> tag_device raw h =
      Responds \<lparr>resp_cmd = CMD_HF14A_SCAN, resp_status = 0x00,
                resp_data = [4, 0xDE, 0xAD, 0xBE, 0xEF, 0x44, 0x00, 0x00, 0x00]\<rparr>"
  by (simp add: tag_device_def CMD_HF14A_SCAN_def CMD_SET_ACTIVE_MODE_def)

lemma tag_device_raw: "fst (last h) = CMD_HF14A_RAW \<Longrightarrow> tag_device raw h = raw"
  by (simp add: tag_device_def CMD_HF14A_SCAN_def CMD_SET_ACTIVE_MODE_def CMD_HF14A_RAW_def)

lemma scan_exit_thrown:
  "scan_and_save (tag_device Times_out) ''t'' fs_ok =
     (Throw ''Command response timed out'',
      [Cmd CMD_SET_ACTIVE_MODE [1]
         (Responds \<lparr>resp_cmd = CMD_SET_ACTIVE_MODE, resp_status = 0x68, resp_data = []\<rparr>),
       Cmd CMD_HF14A_SCAN []
         (Responds \<lparr>resp_cmd = CMD_HF14A_SCAN, resp_status = 0x00,
                    resp_data = [4, 0xDE, 0xAD, 0xBE, 0xEF, 0x44, 0x00, 0x00, 0x00]\<rparr>),
       Cmd CMD_HF14A_RAW [252, 0, 100, 0, 16, 0x30, 0] Times_out,
       Log_error ''Error: Command response timed out'',
       Cmd CMD_SET_ACTIVE_MODE [0]
         (Responds \<lparr>resp_cmd = CMD_SET_ACTIVE_MODE, resp_status = 0x68, resp_data = []\<rparr>)])"
proof -
  have pages: "\<And>tr allData. read_tag_pages (tag_device Times_out) 0 allData tr =
      (Throw ''Command response timed out'',
       tr @ [Cmd CMD_HF14A_RAW [252, 0, 100, 0, 16, 0x30, 0] Times_out])"
    by (subst read_tag_pages.simps) (simp add: Let_def tag_device_raw and_255 drop_bit_eq_div)
  show ?thesis
    by (simp add: scan_and_save_def scan_body_def device_cmd_def Let_def tag_device_mode
          tag_device_scan scan_loop_found pages)
qed

lemma scan_exit_early_return:
  "scan_and_save
     (tag_device (Responds \<lparr>resp_cmd = CMD_HF14A_RAW, resp_status = 0x02, resp_data = []\<rparr>))
     ''t'' fs_ok =
     (Return_early,
      [Cmd CMD_SET_ACTIVE_MODE [1]
         (Responds \<lparr>resp_cmd = CMD_SET_ACTIVE_MODE, resp_status = 0x68, resp_data = []\<rparr>),
       Cmd CMD_HF14A_SCAN []
         (Responds \<lparr>resp_cmd = CMD_HF14A_SCAN, resp_status = 0x00,
                    resp_data = [4, 0xDE, 0xAD, 0xBE, 0xEF, 0x44, 0x00, 0x00, 0x00]\<rparr>),
       Cmd CMD_HF14A_RAW [252, 0, 100, 0, 16, 0x30, 0]
         (Responds \<lparr>resp_cmd = CMD_HF14A_RAW, resp_status = 0x02, resp_data = []\<rparr>),
       Log_error ''Failed to read page 0: status 0x2'',
       Cmd CMD_SET_ACTIVE_MODE [0]
         (Responds \<lparr>resp_cmd = CMD_SET_ACTIVE_MODE, resp_status = 0x68, resp_data = []\<rparr>)])"
proof -
  let ?raw = "Responds \<lparr>resp_cmd = CMD_HF14A_RAW, resp_status = 0x02, resp_data = []\<rparr>"
  have pages: "\<And>tr allData. read_tag_pages (tag_device ?raw) 0 allData tr =
      (Return_early,
       tr @ [Cmd CMD_HF14A_RAW [252, 0, 100, 0, 16, 0x30, 0] ?raw,
             Log_error ''Failed to read page 0: status 0x2''])"
    by (subst read_tag_pages.simps)
       (simp add: Let_def tag_device_raw and_255 drop_bit_eq_div toString_def digits_small
          digit_char_def)
  show ?thesis
    by (simp add: scan_and_save_def scan_body_def device_cmd_def Let_def tag_device_mode
          tag_device_scan scan_loop_found pages)
qed

lemma read_tag_pages_finishes:
  "(\<And>h. fst (last h) = CMD_HF14A_RAW \<Longrightarrow> dev h = Responds r) \<Longrightarrow> resp_status r = 0 \<Longrightarrow>
     \<exists>allData' tr'. read_tag_pages dev page allData tr = (Finished allData', tr')"
proof (induction dev page allData tr rule: read_tag_pages.induct)
  case (1 dev page allData tr)
  let ?readCmd = "[u8 (if page = 0 then 128 + 64 + 32 + 16 + 8 + 4 else 128 + 64 + 32 + 8 + 4),
                       u8 (drop_bit 8 100 AND 0xFF), u8 (100 AND 0xFF),
                       u8 (drop_bit 8 (length [0x30, u8 page] * 8) AND 0xFF),
                       u8 (length [0x30 :: byte, u8 page] * 8 AND 0xFF)] @ [0x30, u8 page]"
  let ?out = "dev (issued tr @ [(CMD_HF14A_RAW, ?readCmd)])"
  let ?tr = "tr @ [Cmd CMD_HF14A_RAW ?readCmd ?out]"
  have out: "?out = Responds r" by (rule "1.prems"(1)) simp
  show ?case
  proof (cases "page < 135")
    case False
    then have "read_tag_pages dev page allData tr = (Finished allData, tr)"
      by (subst read_tag_pages.simps) (simp add: Let_def)
    then show ?thesis by simp
  next
    case True
    let ?all = "set_at allData (slice_arr (slice_arr (resp_data r) 0 16) 0 (min 16 ((135 - page) * 4))) (page * 4)"
    from True out "1.prems"(2)
    have "read_tag_pages dev page allData tr = read_tag_pages dev (page + 4) ?all ?tr"
      by (subst read_tag_pages.simps) (simp add: Let_def)
    moreover from "1.IH" [OF refl refl True refl refl refl refl refl refl refl out _ refl refl]
      "1.prems"
    have "\<exists>allData' tr'. read_tag_pages dev (page + 4) ?all ?tr = (Finished allData', tr')"
      by simp
    ultimately show ?thesis by simp
  qed
qed

lemma scan_exit_completed:
  "fst (scan_and_save
     (tag_device (Responds \<lparr>resp_cmd = CMD_HF14A_RAW, resp_status = 0x00,
                             resp_data = replicate 16 0xAB\<rparr>))
     ''t'' fs_ok) = Finished ()"
proof -
  let ?raw = "Responds \<lparr>resp_cmd = CMD_HF14A_RAW, resp_status = 0x00, resp_data = replicate 16 0xAB\<rparr>"
  have "\<And>allData tr. \<exists>allData' tr'. read_tag_pages (tag_device ?raw) 0 allData tr = (Finished allData', tr')"
    by (rule read_tag_pages_finishes [where r = "\<lparr>resp_cmd = CMD_HF14A_RAW, resp_status = 0x00,
                             resp_data = replicate 16 0xAB\<rparr>"])
       (simp_all add: tag_device_raw)
  then obtain allData' tr' where
    "read_tag_pages (tag_device ?raw) 0 (replicate 540 0)
       [Cmd CMD_SET_ACTIVE_MODE [1]
         (Responds \<lparr>resp_cmd = CMD_SET_ACTIVE_MODE, resp_status = 0x68, resp_data = []\<rparr>),
        Cmd CMD_HF14A_SCAN []
         (Responds \<lparr>resp_cmd = CMD_HF14A_SCAN, resp_status = 0x00,
                    resp_data = [4, 0xDE, 0xAD, 0xBE, 0xEF, 0x44, 0x00, 0x00, 0x00]\<rparr>)]
     = (Finished allData', tr')"
    by blast
  then show ?thesis
    by (simp add: scan_and_save_def scan_body_def device_cmd_def Let_def tag_device_mode
          tag_device_scan scan_loop_found fs_ok_def split: prod.splits)
qed

text \<open>
  Call numbers are fresh: in every state reached from the constructor by sends, timeouts
  and dispatched frames, the promises, timers and callbacks all belong to calls already
  made.
\<close>

lemma fresh_new_device: "dom (promises new_device) \<subseteq> {..<next_call new_device}"
  by (simp add: new_device_def)

lemma fresh_sendCommand:
  "dom (promises d) \<subseteq> {..<next_call d} \<Longrightarrow>
     dom (promises (snd (sendCommand c data status d))) \<subseteq> {..<next_call (snd (sendCommand c data status d))}"
  by (auto simp add: sendCommand_def Let_def)

lemma fresh_settle:
  "dom (promises d) \<subseteq> {..<next_call d} \<Longrightarrow> p < next_call d \<Longrightarrow>
     dom (promises (settle p v d)) \<subseteq> {..<next_call (settle p v d)}"
  by (auto simp add: settle_def)

lemma fresh_timeout_fires:
  assumes "dom (promises d) \<subseteq> {..<next_call d}" "dom (timers d) \<subseteq> {..<next_call d}"
    "ran (responseCallbacks d) \<subseteq> {..<next_call d}"
  shows "dom (promises (timeout_fires p d)) \<subseteq> {..<next_call (timeout_fires p d)}"
    and "dom (timers (timeout_fires p d)) \<subseteq> {..<next_call (timeout_fires p d)}"
    and "ran (responseCallbacks (timeout_fires p d)) \<subseteq> {..<next_call (timeout_fires p d)}"
  using assms
  by (auto simp add: timeout_fires_def settle_def Let_def ran_def domIff subset_iff
           split: option.splits if_splits)

lemma fresh_dispatch:
  assumes "dom (promises d) \<subseteq> {..<next_call d}" "dom (timers d) \<subseteq> {..<next_call d}"
    "ran (responseCallbacks d) \<subseteq> {..<next_call d}"
  shows "dom (promises (dispatch r d)) \<subseteq> {..<next_call (dispatch r d)}"
    and "dom (timers (dispatch r d)) \<subseteq> {..<next_call (dispatch r d)}"
    and "ran (responseCallbacks (dispatch r d)) \<subseteq> {..<next_call (dispatch r d)}"
  using assms
  by (auto simp add: dispatch_def settle_def Let_def ran_def domIff subset_iff
           split: option.splits if_splits)

lemma fresh_sendCommand_all:
  assumes "dom (promises d) \<subseteq> {..<next_call d}" "dom (timers d) \<subseteq> {..<next_call d}"
    "ran (responseCallbacks d) \<subseteq> {..<next_call d}"
  shows "dom (promises (snd (sendCommand c data status d))) \<subseteq> {..<next_call (snd (sendCommand c data status d))}"
    and "dom (timers (snd (sendCommand c data status d))) \<subseteq> {..<next_call (snd (sendCommand c data status d))}"
    and "ran (responseCallbacks (snd (sendCommand c data status d))) \<subseteq> {..<next_call (snd (sendCommand c data status d))}"
  using assms
  by (auto simp add: sendCommand_def Let_def ran_def domIff subset_iff
           split: option.splits if_splits)

text \<open>
  The timeout scenario on the wire, for a device whose receive buffer is empty when the
  command is sent: both frames are decoded from their bytes by the data handler.
\<close>

lemma late_frame_on_wire:
  assumes fresh: "dom (promises d) \<subseteq> {..<next_call d}"
    and empty: "buffer d = []"
    and bounds: "c \<le> 65535" "lateStatus \<le> 65535" "length late \<le> 4096" "status \<le> 65535" "length payload \<le> 4096"
    and send1: "sendCommand c firstData firstStatus d = (p, sent)"
    and timeout: "timeout_fires p sent = expired"
    and late: "onData (makeDataFrame c (Some late) lateStatus) expired = (lateFrames, afterLate)"
    and send2: "sendCommand c secondData secondStatus afterLate = (q, resent)"
    and answer: "onData (makeDataFrame c (Some payload) status) resent = (frames, final)"
  shows "promises expired p = Some (Rejected ''Command response timed out'')
       \<and> responseCallbacks expired c = None
       \<and> lateFrames = [\<lparr>resp_cmd = c, resp_status = lateStatus, resp_data = late\<rparr>] \<and> afterLate = expired
       \<and> responseCallbacks resent c = Some q \<and> q \<noteq> p
       \<and> promises final q = Some (Resolved \<lparr>resp_cmd = c, resp_status = status, resp_data = payload\<rparr>)
       \<and> promises final p = Some (Rejected ''Command response timed out'')
       \<and> responseCallbacks final c = None"
proof -
  have p: "p = next_call d" and sent_eq: "sent = d\<lparr>next_call := p + 1, timers := (timers d)(p \<mapsto> c),
        responseCallbacks := (responseCallbacks d)(c \<mapsto> p),
        transport_tx := transport_tx d @ [makeDataFrame c firstData firstStatus]\<rparr>"
    using send1 by (auto simp: sendCommand_def Let_def)
  have pend: "promises d p = None" "promises d (p + 1) = None"
    using fresh p by (auto simp: subset_iff domIff)
  have expired_eq: "expired = d\<lparr>next_call := p + 1, timers := (timers d)(p := None),
        responseCallbacks := (responseCallbacks d)(c := None),
        transport_tx := transport_tx d @ [makeDataFrame c firstData firstStatus],
        promises := (promises d)(p \<mapsto> Rejected ''Command response timed out'')\<rparr>"
    using pend(1) by (simp add: timeout [symmetric] timeout_fires_def sent_eq settle_def Let_def)
  have buf_expired: "buffer expired = []" using empty by (simp add: expired_eq)
  have "onData (makeDataFrame c (Some late) lateStatus) expired =
          ([\<lparr>resp_cmd = c, resp_status = lateStatus, resp_data = late\<rparr>],
           (dispatch \<lparr>resp_cmd = c, resp_status = lateStatus, resp_data = late\<rparr> expired)\<lparr>buffer := []\<rparr>)"
    using bounds buf_expired by (intro onData_frame) simp_all
  moreover have "dispatch \<lparr>resp_cmd = c, resp_status = lateStatus, resp_data = late\<rparr> expired = expired"
    by (rule dispatch_unmatched) (simp add: expired_eq)
  ultimately have late_eq: "lateFrames = [\<lparr>resp_cmd = c, resp_status = lateStatus, resp_data = late\<rparr>]" and after_eq: "afterLate = expired"
    using late buf_expired by simp_all
  have q: "q = p + 1" and resent_eq: "resent = expired\<lparr>next_call := q + 1, timers := (timers expired)(q \<mapsto> c),
        responseCallbacks := (responseCallbacks expired)(c \<mapsto> q),
        transport_tx := transport_tx expired @ [makeDataFrame c secondData secondStatus]\<rparr>"
    using send2 by (auto simp: sendCommand_def Let_def after_eq expired_eq)
  have buf_resent: "buffer resent = []" using buf_expired by (simp add: resent_eq)
  let ?r = "\<lparr>resp_cmd = c, resp_status = status, resp_data = payload\<rparr>"
  have "onData (makeDataFrame c (Some payload) status) resent = ([?r], (dispatch ?r resent)\<lparr>buffer := []\<rparr>)"
    using bounds buf_resent by (intro onData_frame) simp_all
  with answer have final_eq: "final = (dispatch ?r resent)\<lparr>buffer := []\<rparr>" by simp
  have pq: "promises resent q = None" using pend(2) q by (simp add: resent_eq expired_eq)
  show ?thesis
    using pq q by (simp add: late_eq after_eq final_eq dispatch_def settle_def Let_def resent_eq expired_eq)
qed

subsection \<open>Claims about the sessions\<close>

text \<open>
  C6 (bulk-read chunking): reading the 135 pages of an NTAG 215 slot, against a device
  that answers each request with success and four bytes per requested page, issues
  exactly five requests, for 32 pages from 0, 32, 64 and 96 and for 7 pages from 128;
  the data read is the five answers in order, 540 bytes, the answer to request \<open>k\<close>
  lying at offset \<open>k * 32 * 4\<close>.
\<close>

theorem chunked_read_135:
  assumes dev: "\<And>h i n. \<exists>r. dev (h @ [(CMD_MF0_NTAG_READ_EMU_PAGE_DATA, [i, n])]) = Responds r
                    \<and> resp_status r = 0x68 \<and> length (resp_data r) = unat n * 4"
  shows "\<exists>r0 r1 r2 r3 r4.
     slot_save_read dev Hf 1101 tagTypeName [] =
       (Finished (resp_data r0 @ resp_data r1 @ resp_data r2 @ resp_data r3 @ resp_data r4),
        [Cmd CMD_MF0_NTAG_READ_EMU_PAGE_DATA [0, 32] (Responds r0),
         Cmd CMD_MF0_NTAG_READ_EMU_PAGE_DATA [32, 32] (Responds r1),
         Cmd CMD_MF0_NTAG_READ_EMU_PAGE_DATA [64, 32] (Responds r2),
         Cmd CMD_MF0_NTAG_READ_EMU_PAGE_DATA [96, 32] (Responds r3),
         Cmd CMD_MF0_NTAG_READ_EMU_PAGE_DATA [128, 7] (Responds r4)])
     \<and> length (resp_data r0 @ resp_data r1 @ resp_data r2 @ resp_data r3 @ resp_data r4) = 540
     \<and> slice_arr (resp_data r0 @ resp_data r1 @ resp_data r2 @ resp_data r3 @ resp_data r4)
          (0 * 32 * 4) (0 * 32 * 4 + 32 * 4) = resp_data r0
     \<and> slice_arr (resp_data r0 @ resp_data r1 @ resp_data r2 @ resp_data r3 @ resp_data r4)
          (1 * 32 * 4) (1 * 32 * 4 + 32 * 4) = resp_data r1
     \<and> slice_arr (resp_data r0 @ resp_data r1 @ resp_data r2 @ resp_data r3 @ resp_data r4)
          (2 * 32 * 4) (2 * 32 * 4 + 32 * 4) = resp_data r2
     \<and> slice_arr (resp_data r0 @ resp_data r1 @ resp_data r2 @ resp_data r3 @ resp_data r4)
          (3 * 32 * 4) (3 * 32 * 4 + 32 * 4) = resp_data r3
     \<and> slice_arr (resp_data r0 @ resp_data r1 @ resp_data r2 @ resp_data r3 @ resp_data r4)
          (4 * 32 * 4) (4 * 32 * 4 + 7 * 4) = resp_data r4"
proof -
  let ?c = CMD_MF0_NTAG_READ_EMU_PAGE_DATA
  obtain r0 where r0: "dev ([] @ [(?c, [0, 32])]) = Responds r0" "resp_status r0 = 0x68"
      "length (resp_data r0) = 128"
    using dev [of "[]" 0 32] by auto
  let ?t1 = "[Cmd ?c [0, 32] (Responds r0)]"
  obtain r1 where r1: "dev (issued ?t1 @ [(?c, [32, 32])]) = Responds r1" "resp_status r1 = 0x68"
      "length (resp_data r1) = 128"
    using dev [of "issued ?t1" 32 32] by auto
  let ?t2 = "?t1 @ [Cmd ?c [32, 32] (Responds r1)]"
  obtain r2 where r2: "dev (issued ?t2 @ [(?c, [64, 32])]) = Responds r2" "resp_status r2 = 0x68"
      "length (resp_data r2) = 128"
    using dev [of "issued ?t2" 64 32] by auto
  let ?t3 = "?t2 @ [Cmd ?c [64, 32] (Responds r2)]"
  obtain r3 where r3: "dev (issued ?t3 @ [(?c, [96, 32])]) = Responds r3" "resp_status r3 = 0x68"
      "length (resp_data r3) = 128"
    using dev [of "issued ?t3" 96 32] by auto
  let ?t4 = "?t3 @ [Cmd ?c [96, 32] (Responds r3)]"
  obtain r4 where r4: "dev (issued ?t4 @ [(?c, [128, 7])]) = Responds r4" "resp_status r4 = 0x68"
      "length (resp_data r4) = 28"
    using dev [of "issued ?t4" 128 7] by auto
  let ?t5 = "?t4 @ [Cmd ?c [128, 7] (Responds r4)]"
  have "read_units dev ?c ''pages'' 135 0 [] [] = read_units dev ?c ''pages'' 135 32 (resp_data r0) ?t1"
    using r0 by (subst read_units_ok [where r = r0]) simp_all
  also have "\<dots> = read_units dev ?c ''pages'' 135 64 (resp_data r0 @ resp_data r1) ?t2"
    using r1 by (subst read_units_ok [where r = r1]) simp_all
  also have "\<dots> = read_units dev ?c ''pages'' 135 96 (resp_data r0 @ resp_data r1 @ resp_data r2) ?t3"
    using r2 by (subst read_units_ok [where r = r2]) simp_all
  also have "\<dots> = read_units dev ?c ''pages'' 135 128
                      (resp_data r0 @ resp_data r1 @ resp_data r2 @ resp_data r3) ?t4"
    using r3 by (subst read_units_ok [where r = r3]) simp_all
  also have "\<dots> = read_units dev ?c ''pages'' 135 160
                      (resp_data r0 @ resp_data r1 @ resp_data r2 @ resp_data r3 @ resp_data r4) ?t5"
    using r4 by (subst read_units_ok [where r = r4]) simp_all
  also have "\<dots> = (Finished (resp_data r0 @ resp_data r1 @ resp_data r2 @ resp_data r3 @ resp_data r4), ?t5)"
    by (rule read_units_done) simp
  finally have run: "slot_save_read dev Hf 1101 tagTypeName [] =
      (Finished (resp_data r0 @ resp_data r1 @ resp_data r2 @ resp_data r3 @ resp_data r4), ?t5)"
    by (simp add: slot_save_read_def pageCounts_def)
  show ?thesis
    apply (rule exI [of _ r0], rule exI [of _ r1], rule exI [of _ r2], rule exI [of _ r3],
           rule exI [of _ r4])
    using run r0(3) r1(3) r2(3) r3(3) r4(3)
    apply (simp add: slice_arr_def)
    done
qed

theorem chunked_read_135_witness:
  "(\<forall>h i n. \<exists>r. obliging_device (h @ [(CMD_MF0_NTAG_READ_EMU_PAGE_DATA, [i, n])]) = Responds r
                    \<and> resp_status r = 0x68 \<and> length (resp_data r) = unat n * 4)
   \<and> issued (snd (slot_save_read obliging_device Hf 1101 ''NTAG 215'' [])) =
        [(CMD_MF0_NTAG_READ_EMU_PAGE_DATA, [0, 32]), (CMD_MF0_NTAG_READ_EMU_PAGE_DATA, [32, 32]),
         (CMD_MF0_NTAG_READ_EMU_PAGE_DATA, [64, 32]), (CMD_MF0_NTAG_READ_EMU_PAGE_DATA, [96, 32]),
         (CMD_MF0_NTAG_READ_EMU_PAGE_DATA, [128, 7])]
   \<and> (\<exists>fileData. fst (slot_save_read obliging_device Hf 1101 ''NTAG 215'' []) = Finished fileData
          \<and> length fileData = 540)"
proof -
  have h: "\<And>h i n. \<exists>r. obliging_device (h @ [(CMD_MF0_NTAG_READ_EMU_PAGE_DATA, [i, n])]) = Responds r
                    \<and> resp_status r = 0x68 \<and> length (resp_data r) = unat n * 4"
    by (simp add: obliging_device_def)
  from chunked_read_135 [of obliging_device "''NTAG 215''", OF h] h
  show ?thesis by auto
qed

text \<open>
  C7 (bulk-transfer failure), as amended: when a chunk of a bulk read in \<open>slot save\<close>
  (NTAG pages, Mifare Classic blocks) or of a bulk write in \<open>slot loadram\<close>/\<open>loadflash\<close>
  is answered with a status other than \<open>0x68\<close>, the handler leaves by an early
  \<open>return\<close>. The run ends with the refused request for units \<open>i\<close> to
  \<open>i + n - 1\<close> and, directly after it, the error line
  \<open>Error reading|writing pages|blocks i-(i+n-1): Status s\<close> that names this range and the
  status \<open>s\<close> of the answer; all answers before it were successes; no file is written
  by the save, and the load issues nothing after its data step, so no configuration is
  saved. Nothing is thrown.
\<close>

theorem bulk_failure_aborts:
  "(1100 \<le> tagTypeNum \<and> tagTypeNum \<le> 1108
      \<and> filter failed_chunk (snd (slot_save dev Hf tagTypeNum tagTypeName filePath writeFile [])) \<noteq> []
    \<longrightarrow> fst (slot_save dev Hf tagTypeNum tagTypeName filePath writeFile []) = Return_early
      \<and> written (snd (slot_save dev Hf tagTypeNum tagTypeName filePath writeFile [])) = []
      \<and> (\<exists>pre i r. snd (slot_save dev Hf tagTypeNum tagTypeName filePath writeFile []) =
             pre @ [Cmd CMD_MF0_NTAG_READ_EMU_PAGE_DATA
                      [u8 i, u8 (min 32 (pageCounts tagTypeNum - i))] (Responds r),
                    Log_error (chunk_error_line ''reading'' ''pages'' i
                                 (min 32 (pageCounts tagTypeNum - i)) (resp_status r))]
           \<and> resp_status r \<noteq> 0x68 \<and> i < pageCounts tagTypeNum
           \<and> filter failed_chunk pre = []))
   \<and> (1000 \<le> tagTypeNum \<and> tagTypeNum \<le> 1003
      \<and> filter failed_chunk (snd (slot_save dev Hf tagTypeNum tagTypeName filePath writeFile [])) \<noteq> []
    \<longrightarrow> fst (slot_save dev Hf tagTypeNum tagTypeName filePath writeFile []) = Return_early
      \<and> written (snd (slot_save dev Hf tagTypeNum tagTypeName filePath writeFile [])) = []
      \<and> (\<exists>pre i r. snd (slot_save dev Hf tagTypeNum tagTypeName filePath writeFile []) =
             pre @ [Cmd CMD_MF1_READ_EMU_BLOCK_DATA
                      [u8 i, u8 (min 32 (blockCounts tagTypeNum - i))] (Responds r),
                    Log_error (chunk_error_line ''reading'' ''blocks'' i
                                 (min 32 (blockCounts tagTypeNum - i)) (resp_status r))]
           \<and> resp_status r \<noteq> 0x68 \<and> i < blockCounts tagTypeNum
           \<and> filter failed_chunk pre = []))
   \<and> (1100 \<le> tagTypeValue \<and> tagTypeValue \<le> 1108
      \<and> filter failed_chunk (snd (slot_load_data dev ''hf'' typeName tagTypeValue fileData [])) \<noteq> []
    \<longrightarrow> fst (slot_load dev ''hf'' typeName tagTypeValue fileData saveToFlash []) = Return_early
      \<and> snd (slot_load dev ''hf'' typeName tagTypeValue fileData saveToFlash [])
          = snd (slot_load_data dev ''hf'' typeName tagTypeValue fileData [])
      \<and> (\<exists>pre i r. snd (slot_load dev ''hf'' typeName tagTypeValue fileData saveToFlash []) =
             pre @ [Cmd CMD_MF0_NTAG_WRITE_EMU_PAGE_DATA
                      (batch_data True 4 fileData i (min 32 (ceil_div (length fileData) 4 - i)))
                      (Responds r),
                    Log_error (chunk_error_line ''writing'' ''pages'' i
                                 (min 32 (ceil_div (length fileData) 4 - i)) (resp_status r))]
           \<and> resp_status r \<noteq> 0x68 \<and> i < ceil_div (length fileData) 4
           \<and> filter failed_chunk pre = []))
   \<and> (1000 \<le> tagTypeValue \<and> tagTypeValue \<le> 1003
      \<and> filter failed_chunk (snd (slot_load_data dev ''hf'' typeName tagTypeValue fileData [])) \<noteq> []
    \<longrightarrow> fst (slot_load dev ''hf'' typeName tagTypeValue fileData saveToFlash []) = Return_early
      \<and> snd (slot_load dev ''hf'' typeName tagTypeValue fileData saveToFlash [])
          = snd (slot_load_data dev ''hf'' typeName tagTypeValue fileData [])
      \<and> (\<exists>pre i r. snd (slot_load dev ''hf'' typeName tagTypeValue fileData saveToFlash []) =
             pre @ [Cmd CMD_MF1_WRITE_EMU_BLOCK_DATA
                      (batch_data False 16 fileData i (min 32 (ceil_div (length fileData) 16 - i)))
                      (Responds r),
                    Log_error (chunk_error_line ''writing'' ''blocks'' i
                                 (min 32 (ceil_div (length fileData) 16 - i)) (resp_status r))]
           \<and> resp_status r \<noteq> 0x68 \<and> i < ceil_div (length fileData) 16
           \<and> filter failed_chunk pre = []))"
proof (intro conjI)
  show "1100 \<le> tagTypeNum \<and> tagTypeNum \<le> 1108
      \<and> filter failed_chunk (snd (slot_save dev Hf tagTypeNum tagTypeName filePath writeFile [])) \<noteq> []
    \<longrightarrow> fst (slot_save dev Hf tagTypeNum tagTypeName filePath writeFile []) = Return_early
      \<and> written (snd (slot_save dev Hf tagTypeNum tagTypeName filePath writeFile [])) = []
      \<and> (\<exists>pre i r. snd (slot_save dev Hf tagTypeNum tagTypeName filePath writeFile []) =
             pre @ [Cmd CMD_MF0_NTAG_READ_EMU_PAGE_DATA
                      [u8 i, u8 (min 32 (pageCounts tagTypeNum - i))] (Responds r),
                    Log_error (chunk_error_line ''reading'' ''pages'' i
                                 (min 32 (pageCounts tagTypeNum - i)) (resp_status r))]
           \<and> resp_status r \<noteq> 0x68 \<and> i < pageCounts tagTypeNum
           \<and> filter failed_chunk pre = [])"
  proof
    assume a: "1100 \<le> tagTypeNum \<and> tagTypeNum \<le> 1108
      \<and> filter failed_chunk (snd (slot_save dev Hf tagTypeNum tagTypeName filePath writeFile [])) \<noteq> []"
    then have "slot_save_read dev Hf tagTypeNum tagTypeName [] =
        read_units dev CMD_MF0_NTAG_READ_EMU_PAGE_DATA ''pages'' (pageCounts tagTypeNum) 0 [] []"
      by (simp add: slot_save_read_def)
    from save_chunk_failure [OF this] a show "fst (slot_save dev Hf tagTypeNum tagTypeName filePath writeFile []) = Return_early
      \<and> written (snd (slot_save dev Hf tagTypeNum tagTypeName filePath writeFile [])) = []
      \<and> (\<exists>pre i r. snd (slot_save dev Hf tagTypeNum tagTypeName filePath writeFile []) =
             pre @ [Cmd CMD_MF0_NTAG_READ_EMU_PAGE_DATA
                      [u8 i, u8 (min 32 (pageCounts tagTypeNum - i))] (Responds r),
                    Log_error (chunk_error_line ''reading'' ''pages'' i
                                 (min 32 (pageCounts tagTypeNum - i)) (resp_status r))]
           \<and> resp_status r \<noteq> 0x68 \<and> i < pageCounts tagTypeNum
           \<and> filter failed_chunk pre = [])"
      by blast
  qed
next
  show "1000 \<le> tagTypeNum \<and> tagTypeNum \<le> 1003
      \<and> filter failed_chunk (snd (slot_save dev Hf tagTypeNum tagTypeName filePath writeFile [])) \<noteq> []
    \<longrightarrow> fst (slot_save dev Hf tagTypeNum tagTypeName filePath writeFile []) = Return_early
      \<and> written (snd (slot_save dev Hf tagTypeNum tagTypeName filePath writeFile [])) = []
      \<and> (\<exists>pre i r. snd (slot_save dev Hf tagTypeNum tagTypeName filePath writeFile []) =
             pre @ [Cmd CMD_MF1_READ_EMU_BLOCK_DATA
                      [u8 i, u8 (min 32 (blockCounts tagTypeNum - i))] (Responds r),
                    Log_error (chunk_error_line ''reading'' ''blocks'' i
                                 (min 32 (blockCounts tagTypeNum - i)) (resp_status r))]
           \<and> resp_status r \<noteq> 0x68 \<and> i < blockCounts tagTypeNum
           \<and> filter failed_chunk pre = [])"
  proof
    assume a: "1000 \<le> tagTypeNum \<and> tagTypeNum \<le> 1003
      \<and> filter failed_chunk (snd (slot_save dev Hf tagTypeNum tagTypeName filePath writeFile [])) \<noteq> []"
    then have "slot_save_read dev Hf tagTypeNum tagTypeName [] =
        read_units dev CMD_MF1_READ_EMU_BLOCK_DATA ''blocks'' (blockCounts tagTypeNum) 0 [] []"
      by (simp add: slot_save_read_def)
    from save_chunk_failure [OF this] a show "fst (slot_save dev Hf tagTypeNum tagTypeName filePath writeFile []) = Return_early
      \<and> written (snd (slot_save dev Hf tagTypeNum tagTypeName filePath writeFile [])) = []
      \<and> (\<exists>pre i r. snd (slot_save dev Hf tagTypeNum tagTypeName filePath writeFile []) =
             pre @ [Cmd CMD_MF1_READ_EMU_BLOCK_DATA
                      [u8 i, u8 (min 32 (blockCounts tagTypeNum - i))] (Responds r),
                    Log_error (chunk_error_line ''reading'' ''blocks'' i
                                 (min 32 (blockCounts tagTypeNum - i)) (resp_status r))]
           \<and> resp_status r \<noteq> 0x68 \<and> i < blockCounts tagTypeNum
           \<and> filter failed_chunk pre = [])"
      by blast
  qed
next
  show "1100 \<le> tagTypeValue \<and> tagTypeValue \<le> 1108
      \<and> filter failed_chunk (snd (slot_load_data dev ''hf'' typeName tagTypeValue fileData [])) \<noteq> []
    \<longrightarrow> fst (slot_load dev ''hf'' typeName tagTypeValue fileData saveToFlash []) = Return_early
      \<and> snd (slot_load dev ''hf'' typeName tagTypeValue fileData saveToFlash [])
          = snd (slot_load_data dev ''hf'' typeName tagTypeValue fileData [])
      \<and> (\<exists>pre i r. snd (slot_load dev ''hf'' typeName tagTypeValue fileData saveToFlash []) =
             pre @ [Cmd CMD_MF0_NTAG_WRITE_EMU_PAGE_DATA
                      (batch_data True 4 fileData i (min 32 (ceil_div (length fileData) 4 - i)))
                      (Responds r),
                    Log_error (chunk_error_line ''writing'' ''pages'' i
                                 (min 32 (ceil_div (length fileData) 4 - i)) (resp_status r))]
           \<and> resp_status r \<noteq> 0x68 \<and> i < ceil_div (length fileData) 4
           \<and> filter failed_chunk pre = [])"
  proof
    assume a: "1100 \<le> tagTypeValue \<and> tagTypeValue \<le> 1108
      \<and> filter failed_chunk (snd (slot_load_data dev ''hf'' typeName tagTypeValue fileData [])) \<noteq> []"
    then have "slot_load_data dev ''hf'' typeName tagTypeValue fileData [] =
        write_units dev CMD_MF0_NTAG_WRITE_EMU_PAGE_DATA ''pages'' 4 True fileData
           (ceil_div (length fileData) 4) 0 []"
      by (simp add: slot_load_data_def)
    from load_chunk_failure [OF this, of saveToFlash] a
    show "fst (slot_load dev ''hf'' typeName tagTypeValue fileData saveToFlash []) = Return_early
      \<and> snd (slot_load dev ''hf'' typeName tagTypeValue fileData saveToFlash [])
          = snd (slot_load_data dev ''hf'' typeName tagTypeValue fileData [])
      \<and> (\<exists>pre i r. snd (slot_load dev ''hf'' typeName tagTypeValue fileData saveToFlash []) =
             pre @ [Cmd CMD_MF0_NTAG_WRITE_EMU_PAGE_DATA
                      (batch_data True 4 fileData i (min 32 (ceil_div (length fileData) 4 - i)))
                      (Responds r),
                    Log_error (chunk_error_line ''writing'' ''pages'' i
                                 (min 32 (ceil_div (length fileData) 4 - i)) (resp_status r))]
           \<and> resp_status r \<noteq> 0x68 \<and> i < ceil_div (length fileData) 4
           \<and> filter failed_chunk pre = [])"
      by blast
  qed
next
  show "1000 \<le> tagTypeValue \<and> tagTypeValue \<le> 1003
      \<and> filter failed_chunk (snd (slot_load_data dev ''hf'' typeName tagTypeValue fileData [])) \<noteq> []
    \<longrightarrow> fst (slot_load dev ''hf'' typeName tagTypeValue fileData saveToFlash []) = Return_early
      \<and> snd (slot_load dev ''hf'' typeName tagTypeValue fileData saveToFlash [])
          = snd (slot_load_data dev ''hf'' typeName tagTypeValue fileData [])
      \<and> (\<exists>pre i r. snd (slot_load dev ''hf'' typeName tagTypeValue fileData saveToFlash []) =
             pre @ [Cmd CMD_MF1_WRITE_EMU_BLOCK_DATA
                      (batch_data False 16 fileData i (min 32 (ceil_div (length fileData) 16 - i)))
                      (Responds r),
                    Log_error (chunk_error_line ''writing'' ''blocks'' i
                                 (min 32 (ceil_div (length fileData) 16 - i)) (resp_status r))]
           \<and> resp_status r \<noteq> 0x68 \<and> i < ceil_div (length fileData) 16
           \<and> filter failed_chunk pre = [])"
  proof
    assume a: "1000 \<le> tagTypeValue \<and> tagTypeValue \<le> 1003
      \<and> filter failed_chunk (snd (slot_load_data dev ''hf'' typeName tagTypeValue fileData [])) \<noteq> []"
    then have "slot_load_data dev ''hf'' typeName tagTypeValue fileData [] =
        write_units dev CMD_MF1_WRITE_EMU_BLOCK_DATA ''blocks'' 16 False fileData
           (ceil_div (length fileData) 16) 0 []"
      by (simp add: slot_load_data_def)
    from load_chunk_failure [OF this, of saveToFlash] a
    show "fst (slot_load dev ''hf'' typeName tagTypeValue fileData saveToFlash []) = Return_early
      \<and> snd (slot_load dev ''hf'' typeName tagTypeValue fileData saveToFlash [])
          = snd (slot_load_data dev ''hf'' typeName tagTypeValue fileData [])
      \<and> (\<exists>pre i r. snd (slot_load dev ''hf'' typeName tagTypeValue fileData saveToFlash []) =
             pre @ [Cmd CMD_MF1_WRITE_EMU_BLOCK_DATA
                      (batch_data False 16 fileData i (min 32 (ceil_div (length fileData) 16 - i)))
                      (Responds r),
                    Log_error (chunk_error_line ''writing'' ''blocks'' i
                                 (min 32 (ceil_div (length fileData) 16 - i)) (resp_status r))]
           \<and> resp_status r \<noteq> 0x68 \<and> i < ceil_div (length fileData) 16
           \<and> filter failed_chunk pre = [])"
      by blast
  qed
qed

theorem bulk_failure_aborts_witness:
  "filter failed_chunk
      (snd (slot_save refusing_device Hf 1101 ''NTAG 215'' ''dump.bin'' writeFile_ok [])) \<noteq> []
   \<and> fst (slot_save refusing_device Hf 1101 ''NTAG 215'' ''dump.bin'' writeFile_ok []) = Return_early
   \<and> written (snd (slot_save refusing_device Hf 1101 ''NTAG 215'' ''dump.bin'' writeFile_ok [])) = []
   \<and> (\<exists>pre i r. snd (slot_save refusing_device Hf 1101 ''NTAG 215'' ''dump.bin'' writeFile_ok []) =
         pre @ [Cmd CMD_MF0_NTAG_READ_EMU_PAGE_DATA [u8 i, u8 (min 32 (pageCounts 1101 - i))] (Responds r),
                Log_error (chunk_error_line ''reading'' ''pages'' i
                             (min 32 (pageCounts 1101 - i)) (resp_status r))]
         \<and> resp_status r \<noteq> 0x68 \<and> i < pageCounts 1101 \<and> filter failed_chunk pre = [])
   \<and> filter failed_chunk
      (snd (slot_save refusing_device Hf 1001 ''Mifare 1K'' ''dump.bin'' writeFile_ok [])) \<noteq> []
   \<and> fst (slot_save refusing_device Hf 1001 ''Mifare 1K'' ''dump.bin'' writeFile_ok []) = Return_early
   \<and> written (snd (slot_save refusing_device Hf 1001 ''Mifare 1K'' ''dump.bin'' writeFile_ok [])) = []
   \<and> (\<exists>pre i r. snd (slot_save refusing_device Hf 1001 ''Mifare 1K'' ''dump.bin'' writeFile_ok []) =
         pre @ [Cmd CMD_MF1_READ_EMU_BLOCK_DATA [u8 i, u8 (min 32 (blockCounts 1001 - i))] (Responds r),
                Log_error (chunk_error_line ''reading'' ''blocks'' i
                             (min 32 (blockCounts 1001 - i)) (resp_status r))]
         \<and> resp_status r \<noteq> 0x68 \<and> i < blockCounts 1001 \<and> filter failed_chunk pre = [])
   \<and> filter failed_chunk
        (snd (slot_load_data refusing_device ''hf'' ''ntag215'' 1101 [1, 2, 3, 4, 5] [])) \<noteq> []
   \<and> fst (slot_load refusing_device ''hf'' ''ntag215'' 1101 [1, 2, 3, 4, 5] True []) = Return_early
   \<and> snd (slot_load refusing_device ''hf'' ''ntag215'' 1101 [1, 2, 3, 4, 5] True [])
        = snd (slot_load_data refusing_device ''hf'' ''ntag215'' 1101 [1, 2, 3, 4, 5] [])
   \<and> filter failed_chunk
        (snd (slot_load_data refusing_device ''hf'' ''mf1k'' 1001 [1, 2, 3, 4, 5] [])) \<noteq> []
   \<and> fst (slot_load refusing_device ''hf'' ''mf1k'' 1001 [1, 2, 3, 4, 5] True []) = Return_early
   \<and> snd (slot_load refusing_device ''hf'' ''mf1k'' 1001 [1, 2, 3, 4, 5] True [])
        = snd (slot_load_data refusing_device ''hf'' ''mf1k'' 1001 [1, 2, 3, 4, 5] [])"
proof -
  have h: "filter failed_chunk
      (snd (slot_save refusing_device Hf 1101 ''NTAG 215'' ''dump.bin'' writeFile_ok [])) \<noteq> []"
    "filter failed_chunk
      (snd (slot_save refusing_device Hf 1001 ''Mifare 1K'' ''dump.bin'' writeFile_ok [])) \<noteq> []"
    "filter failed_chunk
        (snd (slot_load_data refusing_device ''hf'' ''ntag215'' 1101 [1, 2, 3, 4, 5] [])) \<noteq> []"
    "filter failed_chunk
        (snd (slot_load_data refusing_device ''hf'' ''mf1k'' 1001 [1, 2, 3, 4, 5] [])) \<noteq> []"
    by (simp_all add: refused_save refused_save_blocks refused_load_data refused_load_blocks)
  note ntag = bulk_failure_aborts [of 1101 refusing_device "''NTAG 215''" "''dump.bin''" writeFile_ok
          1101 "''ntag215''" "[1, 2, 3, 4, 5]" True]
  note mifare = bulk_failure_aborts [of 1001 refusing_device "''Mifare 1K''" "''dump.bin''" writeFile_ok
          1001 "''mf1k''" "[1, 2, 3, 4, 5]" True]
  from ntag [THEN conjunct1] h(1)
  have a: "fst (slot_save refusing_device Hf 1101 ''NTAG 215'' ''dump.bin'' writeFile_ok []) = Return_early
   \<and> written (snd (slot_save refusing_device Hf 1101 ''NTAG 215'' ''dump.bin'' writeFile_ok [])) = []
   \<and> (\<exists>pre i r. snd (slot_save refusing_device Hf 1101 ''NTAG 215'' ''dump.bin'' writeFile_ok []) =
         pre @ [Cmd CMD_MF0_NTAG_READ_EMU_PAGE_DATA [u8 i, u8 (min 32 (pageCounts 1101 - i))] (Responds r),
                Log_error (chunk_error_line ''reading'' ''pages'' i
                             (min 32 (pageCounts 1101 - i)) (resp_status r))]
         \<and> resp_status r \<noteq> 0x68 \<and> i < pageCounts 1101 \<and> filter failed_chunk pre = [])"
    by simp
  from mifare [THEN conjunct2, THEN conjunct1] h(2)
  have b: "fst (slot_save refusing_device Hf 1001 ''Mifare 1K'' ''dump.bin'' writeFile_ok []) = Return_early
   \<and> written (snd (slot_save refusing_device Hf 1001 ''Mifare 1K'' ''dump.bin'' writeFile_ok [])) = []
   \<and> (\<exists>pre i r. snd (slot_save refusing_device Hf 1001 ''Mifare 1K'' ''dump.bin'' writeFile_ok []) =
         pre @ [Cmd CMD_MF1_READ_EMU_BLOCK_DATA [u8 i, u8 (min 32 (blockCounts 1001 - i))] (Responds r),
                Log_error (chunk_error_line ''reading'' ''blocks'' i
                             (min 32 (blockCounts 1001 - i)) (resp_status r))]
         \<and> resp_status r \<noteq> 0x68 \<and> i < blockCounts 1001 \<and> filter failed_chunk pre = [])"
    by simp
  from ntag [THEN conjunct2, THEN conjunct2, THEN conjunct1] h(3)
  have c: "fst (slot_load refusing_device ''hf'' ''ntag215'' 1101 [1, 2, 3, 4, 5] True []) = Return_early
   \<and> snd (slot_load refusing_device ''hf'' ''ntag215'' 1101 [1, 2, 3, 4, 5] True [])
        = snd (slot_load_data refusing_device ''hf'' ''ntag215'' 1101 [1, 2, 3, 4, 5] [])"
    by simp
  from mifare [THEN conjunct2, THEN conjunct2, THEN conjunct2] h(4)
  have d: "fst (slot_load refusing_device ''hf'' ''mf1k'' 1001 [1, 2, 3, 4, 5] True []) = Return_early
   \<and> snd (slot_load refusing_device ''hf'' ''mf1k'' 1001 [1, 2, 3, 4, 5] True [])
        = snd (slot_load_data refusing_device ''hf'' ''mf1k'' 1001 [1, 2, 3, 4, 5] [])"
    by simp
  from h a b c d show ?thesis by blast
qed

text \<open>
  The failure is not thrown: against a device that refuses the first page request, the
  save handler returns early after logging the error line.
\<close>

theorem bulk_failure_not_thrown:
  "slot_save refusing_device Hf 1101 ''NTAG 215'' ''dump.bin'' writeFile_ok [] =
     (Return_early,
      [Cmd CMD_MF0_NTAG_READ_EMU_PAGE_DATA [0, 32]
         (Responds \<lparr>resp_cmd = CMD_MF0_NTAG_READ_EMU_PAGE_DATA, resp_status = 0x60, resp_data = []\<rparr>),
       Log_error ''Error reading pages 0-31: Status 96''])"
  by (rule refused_save)



text \<open>
  C9 (mode-switch restoration): in every run of the scanner script, whatever the device
  answers and however the body of the \<open>try\<close> is left (to its end, by a thrown error, or
  by an early \<open>return\<close>), the command \<open>CMD_SET_ACTIVE_MODE\<close> with payload byte 0 is
  the last command issued, and it is issued once.
\<close>

theorem restore_emulator_mode_once:
  "\<exists>pre. issued (snd (scan_and_save dev timestamp fs_writeFile)) = pre @ [(CMD_SET_ACTIVE_MODE, [0])]
         \<and> (CMD_SET_ACTIVE_MODE, [0]) \<notin> set pre"
proof -
  let ?body = "scan_body dev timestamp fs_writeFile []"
  have pre: "(CMD_SET_ACTIVE_MODE, [0]) \<notin> set (issued (snd ?body))"
  proof
    assume "(CMD_SET_ACTIVE_MODE, [0]) \<in> set (issued (snd ?body))"
    from scan_body_issued [OF this] show False
      by (simp add: CMD_SET_ACTIVE_MODE_def CMD_HF14A_SCAN_def CMD_HF14A_RAW_def)
  qed
  have "issued (snd (scan_and_save dev timestamp fs_writeFile)) =
          issued (snd ?body) @ [(CMD_SET_ACTIVE_MODE, [0])]"
    by (simp add: scan_and_save_def device_cmd_def Let_def issued_append
             split: prod.splits exit.splits cmd_outcome.splits)
  with pre show ?thesis by blast
qed

end
